theory Spec2Isabelle
  imports Complex_Main "HOL-Library.Word"
begin

section \<open>The serial transport\<close>

text \<open>
  \<^verbatim>\<open>plc_lib.py\<close> talks to the controller through a pymodbus serial client. The client is
  not part of the repository, so it is a parameter of the model: a state \<open>'s\<close> of the
  serial line and the device behind it, and two functions on that state. Every call of
  the client is written to a trace, so that theorems can say which transactions an
  operation issued, in which order and at which wire address.
\<close>

type_synonym register = "16 word"

datatype request =
    ReadHoldingRegisters int int int
  | ReadCoils int int int
  | ReadDiscreteInputs int int int
  | WriteRegister int int int
  | WriteCoils int "bool list" int
  | WriteCoil int bool int

text \<open>The first argument of every request is \<open>address=\<close>, the last is \<open>slave=\<close>.\<close>

fun wire_address :: "request \<Rightarrow> int" where
  "wire_address (ReadHoldingRegisters a _ _) = a"
| "wire_address (ReadCoils a _ _) = a"
| "wire_address (ReadDiscreteInputs a _ _) = a"
| "wire_address (WriteRegister a _ _) = a"
| "wire_address (WriteCoils a _ _) = a"
| "wire_address (WriteCoil a _ _) = a"

text \<open>
  What a client call gives back: it raises, or it returns an error response (no
  \<open>registers\<close>, no \<open>bits\<close>, \<open>isError()\<close> true), or a response carrying registers, bits or
  the acknowledgement of a write (\<open>isError()\<close> false for the three of them).
\<close>

datatype response =
    Raised
  | ErrorResponse
  | Registers "register list"
  | Bits "bool list"
  | WriteAck

fun isError :: "response \<Rightarrow> bool" where
  "isError ErrorResponse = True"
| "isError _ = False"

record 's transport =
  port_connect :: "'s \<Rightarrow> bool \<times> 's"
  transact :: "request \<Rightarrow> 's \<Rightarrow> response \<times> 's"

datatype event = Connect | Call request | Sleep nat

section \<open>The device interface: class DeltaPLC\<close>

definition D_OFFSET :: int where "D_OFFSET = 0x1000"
definition M_OFFSET :: int where "M_OFFSET = 0x0800"
definition X_OFFSET :: int where "X_OFFSET = 0x0400"
definition Y_OFFSET :: int where "Y_OFFSET = 0x0500"

record 's plc =
  connected :: bool
  slave_address :: int
  line :: 's
  trace :: "event list"

text \<open>
  \<open>connect\<close>: a new client is made and opened. A constructor that raises and an open that
  returns false both leave \<open>connected\<close> false and return false, so \<open>port_connect\<close> has one
  boolean outcome.
\<close>

definition connect :: "'s transport \<Rightarrow> 's plc \<Rightarrow> bool \<times> 's plc" where
  "connect T p =
     (case port_connect T (line p) of
        (ok, l) \<Rightarrow> (ok, p\<lparr>connected := ok, line := l, trace := trace p @ [Connect]\<rparr>))"

definition ensure_connected :: "'s transport \<Rightarrow> 's plc \<Rightarrow> bool \<times> 's plc" where
  "ensure_connected T p = (if \<not> connected p then connect T p else (True, p))"

text \<open>One method call on \<open>self.client\<close>.\<close>

definition client_call :: "'s transport \<Rightarrow> request \<Rightarrow> 's plc \<Rightarrow> response \<times> 's plc" where
  "client_call T rq p =
     (case transact T rq (line p) of
        (r, l) \<Rightarrow> (r, p\<lparr>line := l, trace := trace p @ [Call rq]\<rparr>))"

text \<open>\<open>time.sleep(ms / 1000)\<close>.\<close>

definition sleep :: "nat \<Rightarrow> 's plc \<Rightarrow> 's plc" where
  "sleep ms p = p\<lparr>trace := trace p @ [Sleep ms]\<rparr>"

text \<open>Python's \<open>xs[:count]\<close>; a negative count is counted from the end.\<close>

definition slice_to :: "int \<Rightarrow> 'a list \<Rightarrow> 'a list" where
  "slice_to count xs =
     (if 0 \<le> count then take (nat count) xs else take (nat (int (length xs) + count)) xs)"

definition read_d_registers ::
  "'s transport \<Rightarrow> int \<Rightarrow> int \<Rightarrow> 's plc \<Rightarrow> register list option \<times> 's plc" where
  "read_d_registers T start count p =
     (case ensure_connected T p of
        (False, p1) \<Rightarrow> (None, p1)
      | (True, p1) \<Rightarrow>
          (case client_call T (ReadHoldingRegisters (D_OFFSET + start) count (slave_address p1)) p1 of
             (Registers rs, p2) \<Rightarrow> (Some rs, p2)
           | (_, p2) \<Rightarrow> (None, p2)))"

definition read_m_coils ::
  "'s transport \<Rightarrow> int \<Rightarrow> int \<Rightarrow> 's plc \<Rightarrow> bool list option \<times> 's plc" where
  "read_m_coils T start count p =
     (case ensure_connected T p of
        (False, p1) \<Rightarrow> (None, p1)
      | (True, p1) \<Rightarrow>
          (case client_call T (ReadCoils (M_OFFSET + start) count (slave_address p1)) p1 of
             (Bits bs, p2) \<Rightarrow> (Some (slice_to count bs), p2)
           | (_, p2) \<Rightarrow> (None, p2)))"

definition read_x_inputs ::
  "'s transport \<Rightarrow> int \<Rightarrow> int \<Rightarrow> 's plc \<Rightarrow> bool list option \<times> 's plc" where
  "read_x_inputs T start count p =
     (case ensure_connected T p of
        (False, p1) \<Rightarrow> (None, p1)
      | (True, p1) \<Rightarrow>
          (case client_call T (ReadDiscreteInputs (X_OFFSET + start) count (slave_address p1)) p1 of
             (Bits bs, p2) \<Rightarrow> (Some (slice_to count bs), p2)
           | (_, p2) \<Rightarrow> (None, p2)))"

definition read_y_outputs ::
  "'s transport \<Rightarrow> int \<Rightarrow> int \<Rightarrow> 's plc \<Rightarrow> bool list option \<times> 's plc" where
  "read_y_outputs T start count p =
     (case ensure_connected T p of
        (False, p1) \<Rightarrow> (None, p1)
      | (True, p1) \<Rightarrow>
          (case client_call T (ReadCoils (Y_OFFSET + start) count (slave_address p1)) p1 of
             (Bits bs, p2) \<Rightarrow> (Some (slice_to count bs), p2)
           | (_, p2) \<Rightarrow> (None, p2)))"

text \<open>
  The writes. A call that raises is caught and gives \<open>False\<close>; otherwise the result is
  \<open>not response.isError()\<close>.
\<close>

definition write_d_register ::
  "'s transport \<Rightarrow> int \<Rightarrow> int \<Rightarrow> 's plc \<Rightarrow> bool \<times> 's plc" where
  "write_d_register T address val p =
     (case ensure_connected T p of
        (False, p1) \<Rightarrow> (False, p1)
      | (True, p1) \<Rightarrow>
          (case client_call T (WriteRegister (D_OFFSET + address) val (slave_address p1)) p1 of
             (Raised, p2) \<Rightarrow> (False, p2)
           | (r, p2) \<Rightarrow> (\<not> isError r, p2)))"

definition write_m_coil_alt ::
  "'s transport \<Rightarrow> int \<Rightarrow> bool \<Rightarrow> 's plc \<Rightarrow> bool \<times> 's plc" where
  "write_m_coil_alt T address state p =
     (case client_call T (WriteCoil (M_OFFSET + address) state (slave_address p)) p of
        (Raised, p1) \<Rightarrow> (False, p1)
      | (r, p1) \<Rightarrow> (\<not> isError r, p1))"

text \<open>
  \<open>write_m_coil\<close>: the multi-coil write, the settle time, the read-back of one coil, and
  the single-coil write when \<open>verify and verify[0] == state\<close> is false. The callers pass
  \<open>bool(...)\<close> for \<open>state\<close>.
\<close>

definition write_m_coil ::
  "'s transport \<Rightarrow> int \<Rightarrow> bool \<Rightarrow> 's plc \<Rightarrow> bool \<times> 's plc" where
  "write_m_coil T address state p =
     (case ensure_connected T p of
        (False, p1) \<Rightarrow> (False, p1)
      | (True, p1) \<Rightarrow>
          (case client_call T (WriteCoils (M_OFFSET + address) [state] (slave_address p1)) p1 of
             (Raised, p2) \<Rightarrow> (False, p2)
           | (r, p2) \<Rightarrow>
               if \<not> isError r then
                 (case read_m_coils T address 1 (sleep 50 p2) of
                    (Some (b # bs), p3) \<Rightarrow>
                      if b = state then (True, p3) else write_m_coil_alt T address state p3
                  | (_, p3) \<Rightarrow> write_m_coil_alt T address state p3)
               else (False, p2)))"

definition write_y_output ::
  "'s transport \<Rightarrow> int \<Rightarrow> bool \<Rightarrow> 's plc \<Rightarrow> bool \<times> 's plc" where
  "write_y_output T address state p =
     (case ensure_connected T p of
        (False, p1) \<Rightarrow> (False, p1)
      | (True, p1) \<Rightarrow>
          (case client_call T (WriteCoil (Y_OFFSET + address) state (slave_address p1)) p1 of
             (Raised, p2) \<Rightarrow> (False, p2)
           | (r, p2) \<Rightarrow> (\<not> isError r, p2)))"

section \<open>Python values\<close>

text \<open>
  The JSON documents of the HTTP layer and the status dictionary are Python values. A
  \<open>dict\<close> is an association list in insertion order. A float is the rational number it
  stands for, or one of the two kinds of non-finite float that \<open>json.loads\<close> accepts.
\<close>

datatype pyval =
    PNone
  | PBool bool
  | PInt int
  | PFloat rat
  | PInf
  | PNaN
  | PStr string
  | PList "pyval list"
  | PDict "(string \<times> pyval) list"

type_synonym dict = "(string \<times> pyval) list"

datatype pyexc =
    ValueError | TypeError | OverflowError | AttributeError | IndexError | KeyError
  | HTTPException

text \<open>\<open>d[k] = v\<close>: an existing key keeps its place, a new one goes to the end.\<close>

fun setitem :: "string \<Rightarrow> pyval \<Rightarrow> dict \<Rightarrow> dict" where
  "setitem k v [] = [(k, v)]"
| "setitem k v ((k', v') # d) = (if k' = k then (k', v) # d else (k', v') # setitem k v d)"

text \<open>\<open>d.get(k, default)\<close>.\<close>

definition get :: "string \<Rightarrow> pyval \<Rightarrow> dict \<Rightarrow> pyval" where
  "get k dflt d = (case map_of d k of Some v \<Rightarrow> v | None \<Rightarrow> dflt)"

text \<open>\<open>data[sec][k] = v\<close> on a dictionary of dictionaries.\<close>

definition setitem2 :: "string \<Rightarrow> string \<Rightarrow> pyval \<Rightarrow> dict \<Rightarrow> pyexc + dict" where
  "setitem2 sec k v data =
     (case map_of data sec of
        None \<Rightarrow> Inl KeyError
      | Some (PDict s) \<Rightarrow> Inr (setitem sec (PDict (setitem k v s)) data)
      | Some _ \<Rightarrow> Inl TypeError)"

text \<open>\<open>bool(x)\<close>, and the test of an \<open>if x:\<close>.\<close>

fun truthy :: "pyval \<Rightarrow> bool" where
  "truthy PNone = False"
| "truthy (PBool b) = b"
| "truthy (PInt i) = (i \<noteq> 0)"
| "truthy (PFloat q) = (q \<noteq> 0)"
| "truthy PInf = True"
| "truthy PNaN = True"
| "truthy (PStr s) = (s \<noteq> [])"
| "truthy (PList xs) = (xs \<noteq> [])"
| "truthy (PDict d) = (d \<noteq> [])"

text \<open>
  \<open>int(x)\<close>. Reading a string as an integer is Python's business (white space, signs,
  underscores, the digit limit): \<open>int_of_str\<close> is a parameter, \<open>None\<close> where \<open>int\<close> raises
  \<open>ValueError\<close>.
\<close>

fun py_int :: "(string \<Rightarrow> int option) \<Rightarrow> pyval \<Rightarrow> pyexc + int" where
  "py_int int_of_str PNone = Inl TypeError"
| "py_int int_of_str (PBool b) = Inr (if b then 1 else 0)"
| "py_int int_of_str (PInt i) = Inr i"
| "py_int int_of_str (PFloat q) = Inr (if 0 \<le> q then \<lfloor>q\<rfloor> else \<lceil>q\<rceil>)"
| "py_int int_of_str PInf = Inl OverflowError"
| "py_int int_of_str PNaN = Inl ValueError"
| "py_int int_of_str (PStr s) = (case int_of_str s of None \<Rightarrow> Inl ValueError | Some i \<Rightarrow> Inr i)"
| "py_int int_of_str (PList xs) = Inl TypeError"
| "py_int int_of_str (PDict d) = Inl TypeError"

text \<open>\<open>str(n)\<close> for the integers that the f-strings format.\<close>

definition digit_char :: "nat \<Rightarrow> char" where
  "digit_char d = ''0123456789'' ! d"

fun str_nat :: "nat \<Rightarrow> string" where
  "str_nat n = (if n < 10 then [digit_char n] else str_nat (n div 10) @ [digit_char (n mod 10)])"

declare str_nat.simps [simp del]

definition str_int :: "int \<Rightarrow> string" where
  "str_int i = (if i < 0 then CHR ''-'' # str_nat (nat (- i)) else str_nat (nat i))"

section \<open>The status snapshot\<close>

text \<open>
  The loop \<open>for i, val in enumerate(values): data[sec][f'{pre}{i}'] = val\<close>, from index
  \<open>i\<close> on.
\<close>

fun store_all :: "string \<Rightarrow> string \<Rightarrow> nat \<Rightarrow> pyval list \<Rightarrow> dict \<Rightarrow> pyexc + dict" where
  "store_all sec pre i [] data = Inr data"
| "store_all sec pre i (v # vs) data =
     (case setitem2 sec (pre @ str_nat i) v data of
        Inl e \<Rightarrow> Inl e
      | Inr data' \<Rightarrow> store_all sec pre (Suc i) vs data')"

text \<open>\<open>if values: for ...\<close>: nothing is stored for \<open>None\<close> and for an empty list.\<close>

definition store_section ::
  "string \<Rightarrow> string \<Rightarrow> pyval list option \<Rightarrow> dict \<Rightarrow> pyexc + dict" where
  "store_section sec pre values data =
     (case values of
        Some (v # vs) \<Rightarrow> store_all sec pre 0 (v # vs) data
      | _ \<Rightarrow> Inr data)"

text \<open>
  \<open>get_all_status\<close>; \<open>now\<close> is \<open>datetime.now().isoformat()\<close>. An exception inside the
  \<open>try\<close> gives \<open>None\<close>.
\<close>

definition get_all_status :: "'s transport \<Rightarrow> string \<Rightarrow> 's plc \<Rightarrow> dict option \<times> 's plc" where
  "get_all_status T now p =
     (let data =
        [(''timestamp'', PStr now), (''connected'', PBool (connected p)),
         (''d_registers'', PDict []), (''m_coils'', PDict []),
         (''x_inputs'', PDict []), (''y_outputs'', PDict [])]
      in case read_d_registers T 0 10 p of (d_values, p1) \<Rightarrow>
         (case store_section ''d_registers'' ''D''
                 (map_option (map (\<lambda>w. PInt (uint w))) d_values) data of
            Inl e \<Rightarrow> (None, p1)
          | Inr data1 \<Rightarrow>
         (case read_m_coils T 0 10 p1 of (m_values, p2) \<Rightarrow>
         (case store_section ''m_coils'' ''M'' (map_option (map PBool) m_values) data1 of
            Inl e \<Rightarrow> (None, p2)
          | Inr data2 \<Rightarrow>
         (case read_x_inputs T 0 8 p2 of (x_values, p3) \<Rightarrow>
         (case store_section ''x_inputs'' ''X'' (map_option (map PBool) x_values) data2 of
            Inl e \<Rightarrow> (None, p3)
          | Inr data3 \<Rightarrow>
         (case read_y_outputs T 0 8 p3 of (y_values, p4) \<Rightarrow>
         (case store_section ''y_outputs'' ''Y'' (map_option (map PBool) y_values) data3 of
            Inl e \<Rightarrow> (None, p4)
          | Inr data4 \<Rightarrow> (Some data4, p4)))))))))"

section \<open>The HTTP routes\<close>

text \<open>
  The views of \<^verbatim>\<open>plc_api.py\<close>. A view returns \<open>jsonify(document), code\<close>. The documents built from a caught exception
  keep the exception instead of its text: \<open>ErrorOf e\<close> is \<open>{'error': str(e)}\<close> and
  \<open>InvalidValue e\<close> is \<open>{'error': f'Invalid value: {e}'}\<close>. The body of a request is what
  \<open>request.get_json()\<close> returns, \<open>None\<close> when it raises. The routes take their addresses
  from the integer segments of the path, which are natural numbers.
\<close>

datatype body = Doc dict | ErrorOf pyexc | InvalidValue pyexc

type_synonym reply = "body \<times> nat"

datatype http_method = GET | POST

definition and_then :: "pyexc + 'a \<Rightarrow> ('a \<Rightarrow> pyexc + 'b) \<Rightarrow> pyexc + 'b" where
  "and_then r f = (case r of Inl e \<Rightarrow> Inl e | Inr x \<Rightarrow> f x)"

text \<open>\<open>status['m_coils'][key] = bool(m100_103[i])\<close>; the index is evaluated first.\<close>

definition put_coil :: "string \<Rightarrow> bool list \<Rightarrow> nat \<Rightarrow> dict \<Rightarrow> pyexc + dict" where
  "put_coil key m i status =
     (if i < length m then setitem2 ''m_coils'' key (PBool (m ! i)) status else Inl IndexError)"

definition get_status :: "'s transport \<Rightarrow> string \<Rightarrow> 's plc \<Rightarrow> reply \<times> 's plc" where
  "get_status T now p =
     (case get_all_status T now p of
        (Some (kv # kvs), p1) \<Rightarrow>
          (case read_m_coils T 100 4 p1 of
             (Some (b # bs), p2) \<Rightarrow>
               (case and_then (put_coil ''M100'' (b # bs) 0 (kv # kvs)) (\<lambda>s1.
                     and_then (put_coil ''M101'' (b # bs) 1 s1) (\<lambda>s2.
                     and_then (put_coil ''M102'' (b # bs) 2 s2) (\<lambda>s3.
                     put_coil ''M103'' (b # bs) 3 s3))) of
                  Inl e \<Rightarrow> ((ErrorOf e, 500), p2)
                | Inr status \<Rightarrow> ((Doc status, 200), p2))
           | (_, p2) \<Rightarrow> ((Doc (kv # kvs), 200), p2))
      | (_, p1) \<Rightarrow>
          ((Doc [(''error'', PStr ''Failed to read PLC''), (''connected'', PBool (connected p1))],
            500), p1))"

definition d_register ::
  "'s transport \<Rightarrow> (string \<Rightarrow> int option) \<Rightarrow> http_method \<Rightarrow> nat \<Rightarrow> pyval option \<Rightarrow> 's plc
     \<Rightarrow> reply \<times> 's plc" where
  "d_register T int_of_str method address json p =
     (case method of
        GET \<Rightarrow>
          (case read_d_registers T (int address) 1 p of
             (Some [], p1) \<Rightarrow> ((ErrorOf IndexError, 500), p1)
           | (Some (v # vs), p1) \<Rightarrow>
               ((Doc [(''success'', PBool True), (''address'', PStr (''D'' @ str_nat address)),
                      (''value'', PInt (uint v))], 200), p1)
           | (None, p1) \<Rightarrow>
               ((Doc [(''error'', PStr (''Failed to read D'' @ str_nat address)),
                      (''connected'', PBool (connected p1))], 500), p1))
      | POST \<Rightarrow>
          (case json of
             Some (PDict data) \<Rightarrow>
               (case py_int int_of_str (get ''value'' (PInt 0) data) of
                  Inl ValueError \<Rightarrow> ((InvalidValue ValueError, 400), p)
                | Inl e \<Rightarrow> ((ErrorOf e, 500), p)
                | Inr val \<Rightarrow>
                    if \<not> (0 \<le> val \<and> val \<le> 65535) then
                      ((Doc [(''error'', PStr ''Value must be 0-65535'')], 400), p)
                    else
                      (case write_d_register T (int address) val p of
                         (True, p1) \<Rightarrow>
                           ((Doc [(''success'', PBool True),
                                  (''address'', PStr (''D'' @ str_nat address)),
                                  (''value'', PInt val)], 200), p1)
                       | (False, p1) \<Rightarrow>
                           ((Doc [(''error'', PStr (''Failed to write D'' @ str_nat address)),
                                  (''connected'', PBool (connected p1))], 500), p1)))
           | Some _ \<Rightarrow> ((ErrorOf AttributeError, 500), p)
           | None \<Rightarrow> ((ErrorOf HTTPException, 500), p)))"

text \<open>\<open>{f'D{start + i}': val for i, val in enumerate(values)}\<close>.\<close>

definition range_dict :: "nat \<Rightarrow> register list \<Rightarrow> dict" where
  "range_dict start values =
     foldl (\<lambda>d (i, v). setitem (''D'' @ str_nat (start + i)) (PInt (uint v)) d) []
       (List.enumerate 0 values)"

definition d_register_range :: "'s transport \<Rightarrow> nat \<Rightarrow> nat \<Rightarrow> 's plc \<Rightarrow> reply \<times> 's plc" where
  "d_register_range T start count p =
     (if count > 100 then
        ((Doc [(''error'', PStr ''Maximum 100 registers per request'')], 400), p)
      else
        (case read_d_registers T (int start) (int count) p of
           (Some values, p1) \<Rightarrow>
             ((Doc [(''success'', PBool True), (''start'', PInt (int start)),
                    (''count'', PInt (int count)),
                    (''registers'', PDict (range_dict start values))], 200), p1)
         | (None, p1) \<Rightarrow> ((Doc [(''error'', PStr ''Failed to read registers'')], 500), p1)))"

definition m_coil ::
  "'s transport \<Rightarrow> http_method \<Rightarrow> nat \<Rightarrow> pyval option \<Rightarrow> 's plc \<Rightarrow> reply \<times> 's plc" where
  "m_coil T method address json p =
     (case method of
        GET \<Rightarrow>
          (case read_m_coils T (int address) 1 p of
             (Some [], p1) \<Rightarrow> ((ErrorOf IndexError, 500), p1)
           | (Some (v # vs), p1) \<Rightarrow>
               ((Doc [(''success'', PBool True), (''address'', PStr (''M'' @ str_nat address)),
                      (''state'', PBool v)], 200), p1)
           | (None, p1) \<Rightarrow>
               ((Doc [(''error'', PStr (''Failed to read M'' @ str_nat address)),
                      (''connected'', PBool (connected p1))], 500), p1))
      | POST \<Rightarrow>
          (case json of
             Some (PDict data) \<Rightarrow>
               (let state = truthy (get ''state'' (PBool False) data)
                in case write_m_coil T (int address) state p of
                     (True, p1) \<Rightarrow>
                       ((Doc [(''success'', PBool True),
                              (''address'', PStr (''M'' @ str_nat address)),
                              (''state'', PBool state)], 200), p1)
                   | (False, p1) \<Rightarrow>
                       ((Doc [(''error'', PStr (''Failed to write M'' @ str_nat address)),
                              (''connected'', PBool (connected p1))], 500), p1))
           | Some _ \<Rightarrow> ((ErrorOf AttributeError, 500), p)
           | None \<Rightarrow> ((ErrorOf HTTPException, 500), p)))"

definition y_output ::
  "'s transport \<Rightarrow> http_method \<Rightarrow> nat \<Rightarrow> pyval option \<Rightarrow> 's plc \<Rightarrow> reply \<times> 's plc" where
  "y_output T method address json p =
     (case method of
        GET \<Rightarrow>
          (case read_y_outputs T (int address) 1 p of
             (Some [], p1) \<Rightarrow> ((ErrorOf IndexError, 500), p1)
           | (Some (v # vs), p1) \<Rightarrow>
               ((Doc [(''success'', PBool True), (''address'', PStr (''Y'' @ str_nat address)),
                      (''state'', PBool v)], 200), p1)
           | (None, p1) \<Rightarrow>
               ((Doc [(''error'', PStr (''Failed to read Y'' @ str_nat address)),
                      (''connected'', PBool (connected p1))], 500), p1))
      | POST \<Rightarrow>
          (case json of
             Some (PDict data) \<Rightarrow>
               (let state = truthy (get ''state'' (PBool False) data)
                in case write_y_output T (int address) state p of
                     (True, p1) \<Rightarrow>
                       ((Doc [(''success'', PBool True),
                              (''address'', PStr (''Y'' @ str_nat address)),
                              (''state'', PBool state)], 200), p1)
                   | (False, p1) \<Rightarrow>
                       ((Doc [(''error'', PStr (''Failed to write Y'' @ str_nat address)),
                              (''connected'', PBool (connected p1))], 500), p1))
           | Some _ \<Rightarrow> ((ErrorOf AttributeError, 500), p)
           | None \<Rightarrow> ((ErrorOf HTTPException, 500), p)))"

text \<open>
  The loop of the two bulk routes, which differ in the write they call and in the letter
  of the result keys: \<open>int(address_str)\<close>, the write of \<open>bool(state)\<close>, the entry of
  \<open>results\<close>, the count. A key that is no integer ends the loop with \<open>ValueError\<close>, after
  the writes made so far.
\<close>

fun bulk_loop ::
  "(int \<Rightarrow> bool \<Rightarrow> 's plc \<Rightarrow> bool \<times> 's plc) \<Rightarrow> string \<Rightarrow> (string \<Rightarrow> int option) \<Rightarrow> dict
     \<Rightarrow> dict \<times> nat \<Rightarrow> 's plc \<Rightarrow> (pyexc + dict \<times> nat) \<times> 's plc" where
  "bulk_loop write pre int_of_str [] acc p = (Inr acc, p)"
| "bulk_loop write pre int_of_str ((address_str, state) # rest) (results, success_count) p =
     (case int_of_str address_str of
        None \<Rightarrow> (Inl ValueError, p)
      | Some address \<Rightarrow>
          (case write address (truthy state) p of
             (success, p1) \<Rightarrow>
               bulk_loop write pre int_of_str rest
                 (setitem (pre @ str_int address) (PBool success) results,
                  if success then Suc success_count else success_count) p1))"

definition bulk_write ::
  "(int \<Rightarrow> bool \<Rightarrow> 's plc \<Rightarrow> bool \<times> 's plc) \<Rightarrow> string \<Rightarrow> string \<Rightarrow> (string \<Rightarrow> int option)
     \<Rightarrow> pyval option \<Rightarrow> 's plc \<Rightarrow> reply \<times> 's plc" where
  "bulk_write write field pre int_of_str json p =
     (case json of
        Some (PDict data) \<Rightarrow>
          (case get field (PDict []) data of
             PDict coils \<Rightarrow>
               (case bulk_loop write pre int_of_str coils ([], 0) p of
                  (Inl e, p1) \<Rightarrow> ((ErrorOf e, 500), p1)
                | (Inr (results, success_count), p1) \<Rightarrow>
                    ((Doc [(''success'', PBool (success_count = length coils)),
                           (''total'', PInt (int (length coils))),
                           (''succeeded'', PInt (int success_count)),
                           (''results'', PDict results)], 200), p1))
           | _ \<Rightarrow> ((ErrorOf AttributeError, 500), p))
      | Some _ \<Rightarrow> ((ErrorOf AttributeError, 500), p)
      | None \<Rightarrow> ((ErrorOf HTTPException, 500), p))"

definition bulk_write_m ::
  "'s transport \<Rightarrow> (string \<Rightarrow> int option) \<Rightarrow> pyval option \<Rightarrow> 's plc \<Rightarrow> reply \<times> 's plc" where
  "bulk_write_m T = bulk_write (write_m_coil T) ''coils'' ''M''"

definition bulk_write_y ::
  "'s transport \<Rightarrow> (string \<Rightarrow> int option) \<Rightarrow> pyval option \<Rightarrow> 's plc \<Rightarrow> reply \<times> 's plc" where
  "bulk_write_y T = bulk_write (write_y_output T) ''outputs'' ''Y''"

section \<open>Vocabulary of the theorems\<close>

text \<open>
  The events an operation added to the trace; a write response the code takes for a
  success (it did not raise and \<open>isError()\<close> is false); a read-back response that
  verifies a coil write (it carries bits and the first one is the requested state).
\<close>

definition new_events :: "'s plc \<Rightarrow> 's plc \<Rightarrow> event list" where
  "new_events p p' = drop (length (trace p)) (trace p')"

definition accepted :: "response \<Rightarrow> bool" where
  "accepted r = (r \<noteq> Raised \<and> \<not> isError r)"

fun verified :: "bool \<Rightarrow> response \<Rightarrow> bool" where
  "verified st (Bits (b # bs)) = (b = st)"
| "verified st _ = False"

text \<open>
  The wire addresses of the transactions an operation issued, in order.
\<close>

definition addresses_used :: "'s plc \<Rightarrow> 's plc \<Rightarrow> int list" where
  "addresses_used p p' = [wire_address rq. Call rq \<leftarrow> new_events p p']"

text \<open>
  The shape of the events of one guarded operation that works at wire address \<open>w\<close>: the
  connection attempt, if the interface was not connected, and then transactions at \<open>w\<close>,
  at least one of them exactly when \<open>ensure_connected\<close> said yes.
\<close>

definition step_events :: "'s transport \<Rightarrow> int \<Rightarrow> 's plc \<Rightarrow> 's plc \<Rightarrow> bool" where
  "step_events T w p p' =
     (\<exists>es. trace p' = trace p @ (if connected p then [] else [Connect]) @ es
        \<and> Connect \<notin> set es
        \<and> (\<forall>rq. Call rq \<in> set es \<longrightarrow> wire_address rq = w)
        \<and> (es \<noteq> [] \<longleftrightarrow> fst (ensure_connected T p)))"

text \<open>
  One lazy connection attempt at most: an operation that took \<open>p\<close> to \<open>p'\<close> only added
  events; it made no attempt when \<open>p\<close> was connected and exactly one, before anything
  else, when it was not; and when \<open>ensure_connected\<close> said no, the operation failed and
  the attempt is all it did.
\<close>

definition lazy_connect_once :: "'s transport \<Rightarrow> 's plc \<Rightarrow> 's plc \<Rightarrow> bool \<Rightarrow> bool" where
  "lazy_connect_once T p p' failed =
     (trace p' = trace p @ new_events p p'
      \<and> (if connected p then Connect \<notin> set (new_events p p')
         else take 1 (new_events p p') = [Connect] \<and> Connect \<notin> set (drop 1 (new_events p p')))
      \<and> (\<not> fst (ensure_connected T p) \<longrightarrow> failed \<and> new_events p p' = [Connect]))"

text \<open>
  The writes that a bulk request asks for, made one after the other: their results, in
  order, and the state they leave.
\<close>

fun run_writes ::
  "(int \<Rightarrow> bool \<Rightarrow> 's plc \<Rightarrow> bool \<times> 's plc) \<Rightarrow> (int \<times> bool) list \<Rightarrow> 's plc
     \<Rightarrow> bool list \<times> 's plc" where
  "run_writes write [] p = ([], p)"
| "run_writes write ((a, st) # rest) p =
     (case write a st p of
        (ok, p1) \<Rightarrow> (case run_writes write rest p1 of (oks, p2) \<Rightarrow> (ok # oks, p2)))"

text \<open>
  The entries of a sub-section of the snapshot for the values a read returned: the
  \<open>i\<close>-th value under the key made of the region's letter and \<open>i\<close>; no entry for a read
  that failed.
\<close>

definition section_of :: "string \<Rightarrow> pyval list option \<Rightarrow> dict" where
  "section_of pre values =
     (case values of
        None \<Rightarrow> []
      | Some vs \<Rightarrow> map (\<lambda>(i, v). (pre @ str_nat i, v)) (List.enumerate 0 vs))"

text \<open>The Coils-A sub-section of a snapshot.\<close>

definition m_coils_of :: "dict \<Rightarrow> dict" where
  "m_coils_of status = (case map_of status ''m_coils'' of Some (PDict ms) \<Rightarrow> ms | _ \<Rightarrow> [])"

section \<open>A scripted device\<close>

text \<open>
  A transport for concrete runs: the port opens or not, as \<open>up\<close> says, and the line
  answers the transactions with the responses of a script, one after the other; when
  the script is used up, the call raises (a timeout).
\<close>

definition scripted :: "bool \<Rightarrow> (response list) transport" where
  "scripted up =
     \<lparr>port_connect = (\<lambda>s. (up, s)),
      transact = (\<lambda>rq s. case s of [] \<Rightarrow> (Raised, []) | r # rs \<Rightarrow> (r, rs))\<rparr>"

definition station :: "bool \<Rightarrow> response list \<Rightarrow> (response list) plc" where
  "station c script = \<lparr>connected = c, slave_address = 1, line = script, trace = []\<rparr>"

text \<open>A reading of strings for runs that post no string: \<open>int\<close> refuses every one.\<close>

definition no_strings :: "string \<Rightarrow> int option" where
  "no_strings s = None"

section \<open>The operations, step by step\<close>

lemma new_events_append: "trace p' = trace p @ es \<Longrightarrow> new_events p p' = es"
  by (simp add: new_events_def)

lemma ensure_connected_eq:
  "ensure_connected T p =
     (if connected p then (True, p)
      else (fst (port_connect T (line p)),
            p\<lparr>connected := fst (port_connect T (line p)), line := snd (port_connect T (line p)),
              trace := trace p @ [Connect]\<rparr>))"
  by (simp add: ensure_connected_def connect_def split: prod.splits)

lemma ensure_connected_True:
  assumes "ensure_connected T p = (True, p0)"
  shows "connected p0" and "ensure_connected T p0 = (True, p0)"
    and "trace p0 = trace p @ (if connected p then [] else [Connect])"
    and "slave_address p0 = slave_address p"
    and "\<not> connected p \<Longrightarrow> fst (port_connect T (line p))"
  using assms by (auto simp: ensure_connected_eq split: if_splits)

lemma ensure_connected_False:
  assumes "ensure_connected T p = (False, p0)"
  shows "\<not> connected p" and "\<not> connected p0" and "trace p0 = trace p @ [Connect]"
    and "\<not> fst (port_connect T (line p))"
  using assms by (auto simp: ensure_connected_eq split: if_splits)

lemma client_call_eq:
  "client_call T rq p =
     (fst (transact T rq (line p)),
      p\<lparr>line := snd (transact T rq (line p)), trace := trace p @ [Call rq]\<rparr>)"
  by (simp add: client_call_def split: prod.splits)

lemma write_m_coil_alt_eq:
  "write_m_coil_alt T a st p =
    (accepted (fst (transact T (WriteCoil (M_OFFSET + a) st (slave_address p)) (line p))),
     p\<lparr>line := snd (transact T (WriteCoil (M_OFFSET + a) st (slave_address p)) (line p)),
       trace := trace p @ [Call (WriteCoil (M_OFFSET + a) st (slave_address p))]\<rparr>)"
  by (simp add: write_m_coil_alt_def accepted_def client_call_eq split: prod.splits response.splits)

lemma read_back_eq:
  assumes "connected p"
  shows "read_m_coils T a 1 p =
     ((case fst (transact T (ReadCoils (M_OFFSET + a) 1 (slave_address p)) (line p)) of
         Bits bs \<Rightarrow> Some (take 1 bs) | _ \<Rightarrow> None),
      p\<lparr>line := snd (transact T (ReadCoils (M_OFFSET + a) 1 (slave_address p)) (line p)),
        trace := trace p @ [Call (ReadCoils (M_OFFSET + a) 1 (slave_address p))]\<rparr>)"
  using assms
  by (simp add: read_m_coils_def ensure_connected_eq client_call_eq slice_to_def split: response.splits)

lemma write_m_coil_connected:
  assumes "connected p"
    and "transact T (WriteCoils (M_OFFSET + a) [st] (slave_address p)) (line p) = (r1, l1)"
    and "transact T (ReadCoils (M_OFFSET + a) 1 (slave_address p)) l1 = (r2, l2)"
    and "transact T (WriteCoil (M_OFFSET + a) st (slave_address p)) l2 = (r3, l3)"
  shows "write_m_coil T a st p =
     (if \<not> accepted r1 then
        (False, p\<lparr>line := l1, trace := trace p @ [Call (WriteCoils (M_OFFSET + a) [st] (slave_address p))]\<rparr>)
      else if verified st r2 then
        (True, p\<lparr>line := l2, trace := trace p @
           [Call (WriteCoils (M_OFFSET + a) [st] (slave_address p)), Sleep 50,
            Call (ReadCoils (M_OFFSET + a) 1 (slave_address p))]\<rparr>)
      else
        (accepted r3, p\<lparr>line := l3, trace := trace p @
           [Call (WriteCoils (M_OFFSET + a) [st] (slave_address p)), Sleep 50,
            Call (ReadCoils (M_OFFSET + a) 1 (slave_address p)),
            Call (WriteCoil (M_OFFSET + a) st (slave_address p))]\<rparr>))"
proof (cases "accepted r1")
  case False
  then show ?thesis using assms(1,2)
    by (cases r1) (simp_all add: write_m_coil_def ensure_connected_eq client_call_eq accepted_def)
next
  case True
  have rb: "read_m_coils T a 1 (sleep 50 (p\<lparr>line := l1, trace := trace p @ [Call (WriteCoils (M_OFFSET + a) [st] (slave_address p))]\<rparr>)) =
     ((case r2 of Bits bs \<Rightarrow> Some (take 1 bs) | _ \<Rightarrow> None),
      p\<lparr>line := l2, trace := trace p @ [Call (WriteCoils (M_OFFSET + a) [st] (slave_address p)), Sleep 50,
            Call (ReadCoils (M_OFFSET + a) 1 (slave_address p))]\<rparr>)"
    using assms(1,3) by (simp add: read_back_eq sleep_def)
  show ?thesis
  proof (cases "verified st r2")
    case v: True
    then obtain bs where "r2 = Bits (st # bs)" by (cases "(st, r2)" rule: verified.cases) auto
    with True assms(1,2) rb show ?thesis
      by (cases r1) (simp_all add: write_m_coil_def ensure_connected_eq client_call_eq accepted_def)
  next
    case v: False
    have "(case r2 of Bits bs \<Rightarrow> Some (take 1 bs) | _ \<Rightarrow> None) = None
        \<or> (case r2 of Bits bs \<Rightarrow> Some (take 1 bs) | _ \<Rightarrow> None) = Some []
        \<or> (\<exists>b bs. (case r2 of Bits bs \<Rightarrow> Some (take 1 bs) | _ \<Rightarrow> None) = Some (b # bs) \<and> b \<noteq> st)"
      using v by (cases "(st, r2)" rule: verified.cases) auto
    with True v assms(1,2,4) rb show ?thesis
      by (cases r1) (auto simp add: write_m_coil_def ensure_connected_eq client_call_eq accepted_def write_m_coil_alt_eq)
  qed
qed

lemma write_m_coil_after_connect:
  assumes "ensure_connected T p = (True, p0)"
  shows "write_m_coil T a st p = write_m_coil T a st p0"
  using assms ensure_connected_True(2)[OF assms] by (simp add: write_m_coil_def)

lemma write_m_coil_refused:
  assumes "ensure_connected T p = (False, p0)"
  shows "write_m_coil T a st p = (False, p0)"
  using assms by (simp add: write_m_coil_def)

lemma read_d_registers_events:
  "step_events T (D_OFFSET + a) p (snd (read_d_registers T a c p))"
  by (auto simp: step_events_def read_d_registers_def ensure_connected_eq client_call_eq
      split: prod.splits bool.splits response.splits)

lemma read_d_registers_refused:
  "\<not> fst (ensure_connected T p) \<Longrightarrow> fst (read_d_registers T a c p) = None"
  by (cases "connected p") (simp_all add: read_d_registers_def ensure_connected_eq)

lemma read_m_coils_events:
  "step_events T (M_OFFSET + a) p (snd (read_m_coils T a c p))"
  by (auto simp: step_events_def read_m_coils_def ensure_connected_eq client_call_eq
      split: prod.splits bool.splits response.splits)

lemma read_m_coils_refused:
  "\<not> fst (ensure_connected T p) \<Longrightarrow> fst (read_m_coils T a c p) = None"
  by (cases "connected p") (simp_all add: read_m_coils_def ensure_connected_eq)

lemma read_x_inputs_events:
  "step_events T (X_OFFSET + a) p (snd (read_x_inputs T a c p))"
  by (auto simp: step_events_def read_x_inputs_def ensure_connected_eq client_call_eq
      split: prod.splits bool.splits response.splits)

lemma read_x_inputs_refused:
  "\<not> fst (ensure_connected T p) \<Longrightarrow> fst (read_x_inputs T a c p) = None"
  by (cases "connected p") (simp_all add: read_x_inputs_def ensure_connected_eq)

lemma read_y_outputs_events:
  "step_events T (Y_OFFSET + a) p (snd (read_y_outputs T a c p))"
  by (auto simp: step_events_def read_y_outputs_def ensure_connected_eq client_call_eq
      split: prod.splits bool.splits response.splits)

lemma read_y_outputs_refused:
  "\<not> fst (ensure_connected T p) \<Longrightarrow> fst (read_y_outputs T a c p) = None"
  by (cases "connected p") (simp_all add: read_y_outputs_def ensure_connected_eq)

lemma write_d_register_events:
  "step_events T (D_OFFSET + a) p (snd (write_d_register T a v p))"
  by (auto simp: step_events_def write_d_register_def ensure_connected_eq client_call_eq
      split: prod.splits bool.splits response.splits)

lemma write_d_register_refused:
  "\<not> fst (ensure_connected T p) \<Longrightarrow> \<not> fst (write_d_register T a v p)"
  by (cases "connected p") (simp_all add: write_d_register_def ensure_connected_eq)

lemma write_y_output_events:
  "step_events T (Y_OFFSET + a) p (snd (write_y_output T a st p))"
  by (auto simp: step_events_def write_y_output_def ensure_connected_eq client_call_eq
      split: prod.splits bool.splits response.splits)

lemma write_y_output_refused:
  "\<not> fst (ensure_connected T p) \<Longrightarrow> \<not> fst (write_y_output T a st p)"
  by (cases "connected p") (simp_all add: write_y_output_def ensure_connected_eq)

lemma write_m_coil_events:
  assumes "connected p"
  shows "\<exists>es. trace (snd (write_m_coil T a st p)) = trace p @ es \<and> Connect \<notin> set es
           \<and> (\<forall>rq. Call rq \<in> set es \<longrightarrow> wire_address rq = M_OFFSET + a) \<and> es \<noteq> []"
proof -
  obtain r1 l1 where 1: "transact T (WriteCoils (M_OFFSET + a) [st] (slave_address p)) (line p) = (r1, l1)"
    by (cases "transact T (WriteCoils (M_OFFSET + a) [st] (slave_address p)) (line p)")
  obtain r2 l2 where 2: "transact T (ReadCoils (M_OFFSET + a) 1 (slave_address p)) l1 = (r2, l2)"
    by (cases "transact T (ReadCoils (M_OFFSET + a) 1 (slave_address p)) l1")
  obtain r3 l3 where 3: "transact T (WriteCoil (M_OFFSET + a) st (slave_address p)) l2 = (r3, l3)"
    by (cases "transact T (WriteCoil (M_OFFSET + a) st (slave_address p)) l2")
  show ?thesis
    unfolding write_m_coil_connected [OF assms 1 2 3] by auto
qed

lemma write_m_coil_step_events:
  "step_events T (M_OFFSET + a) p (snd (write_m_coil T a st p))"
  "\<not> fst (ensure_connected T p) \<Longrightarrow> \<not> fst (write_m_coil T a st p)"
proof -
  obtain ok p0 where e: "ensure_connected T p = (ok, p0)"
    by (cases "ensure_connected T p")
  show "step_events T (M_OFFSET + a) p (snd (write_m_coil T a st p))"
  proof (cases ok)
    case True
    with e have e': "ensure_connected T p = (True, p0)" by simp
    from write_m_coil_events [OF ensure_connected_True(1) [OF e'], of T a st]
    obtain es where "trace (snd (write_m_coil T a st p0)) = trace p0 @ es" "Connect \<notin> set es"
      "\<forall>rq. Call rq \<in> set es \<longrightarrow> wire_address rq = M_OFFSET + a" "es \<noteq> []" by blast
    then show ?thesis
      using e' ensure_connected_True(3) [OF e'] write_m_coil_after_connect [OF e', of a st]
      by (auto simp: step_events_def)
  next
    case False
    with e have e': "ensure_connected T p = (False, p0)" by simp
    show ?thesis
      using e' ensure_connected_False [OF e'] write_m_coil_refused [OF e', of a st]
      by (auto simp: step_events_def)
  qed
  show "\<not> fst (ensure_connected T p) \<Longrightarrow> \<not> fst (write_m_coil T a st p)"
    using e write_m_coil_refused [of T p p0 a st] by (cases ok) auto
qed

lemma step_events_addresses:
  assumes "step_events T w p p'"
  shows "set (addresses_used p p') \<subseteq> {w}"
proof -
  from assms obtain es where
    t: "trace p' = trace p @ ((if connected p then [] else [Connect]) @ es)"
    and a: "\<forall>rq. Call rq \<in> set es \<longrightarrow> wire_address rq = w"
    by (auto simp: step_events_def)
  have "new_events p p' = (if connected p then [] else [Connect]) @ es"
    by (rule new_events_append [OF t])
  with a show ?thesis by (auto simp: addresses_used_def)
qed

lemma step_events_lazy:
  assumes "step_events T w p p'" and "\<not> fst (ensure_connected T p) \<Longrightarrow> failed"
  shows "lazy_connect_once T p p' failed"
proof -
  from assms(1) obtain es where
    t: "trace p' = trace p @ ((if connected p then [] else [Connect]) @ es)"
    and c: "Connect \<notin> set es"
    and e: "es \<noteq> [] \<longleftrightarrow> fst (ensure_connected T p)"
    by (auto simp: step_events_def)
  have n: "new_events p p' = (if connected p then [] else [Connect]) @ es"
    by (rule new_events_append [OF t])
  have "\<not> fst (ensure_connected T p) \<Longrightarrow> \<not> connected p"
    by (auto simp: ensure_connected_eq)
  with t c e n assms(2) show ?thesis
    by (auto simp: lazy_connect_once_def)
qed

lemma scripted_transact:
  "transact (scripted up) rq (r # rs) = (r, rs)" "transact (scripted up) rq [] = (Raised, [])"
  "port_connect (scripted up) s = (up, s)"
  by (simp_all add: scripted_def)

lemma station_sel:
  "connected (station c s) = c" "slave_address (station c s) = 1" "line (station c s) = s"
  "trace (station c s) = []"
  by (simp_all add: station_def)

section \<open>Formatted keys and dictionaries\<close>

lemma digit_char_inj:
  assumes "d < 10" and "e < 10" and "digit_char d = digit_char e"
  shows "d = e"
proof -
  have "distinct ''0123456789''" by simp
  moreover have "d < length ''0123456789''" "e < length ''0123456789''"
    using assms by simp_all
  ultimately show ?thesis
    using assms(3) unfolding digit_char_def by (simp only: nth_eq_iff_index_eq)
qed

lemma digit_char_digit: "d < 10 \<Longrightarrow> digit_char d \<in> set ''0123456789''"
  unfolding digit_char_def by (rule nth_mem) simp

lemma str_nat_nonempty: "str_nat n \<noteq> []"
  by (subst str_nat.simps) simp

lemma str_nat_digits: "set (str_nat n) \<subseteq> set ''0123456789''"
proof (induction n rule: str_nat.induct)
  case (1 n)
  show ?case
  proof (cases "n < 10")
    case True
    then show ?thesis
      using digit_char_digit [of n] by (subst str_nat.simps) simp
  next
    case False
    have "n mod 10 < 10" by simp
    then have "digit_char (n mod 10) \<in> set ''0123456789''"
      by (rule digit_char_digit)
    with False 1 show ?thesis
      by (subst str_nat.simps) simp
  qed
qed

lemma str_nat_inj: "str_nat m = str_nat n \<Longrightarrow> m = n"
proof (induction m arbitrary: n rule: str_nat.induct)
  case (1 m)
  show ?case
  proof (cases "m < 10")
    case m: True
    show ?thesis
    proof (cases "n < 10")
      case True
      with m "1.prems" show ?thesis
        by (simp add: str_nat.simps [of m] str_nat.simps [of n] digit_char_inj)
    next
      case False
      with m "1.prems" str_nat_nonempty [of "n div 10"] show ?thesis
        by (simp add: str_nat.simps [of m] str_nat.simps [of n])
    qed
  next
    case m: False
    show ?thesis
    proof (cases "n < 10")
      case True
      with m "1.prems" str_nat_nonempty [of "m div 10"] show ?thesis
        by (simp add: str_nat.simps [of m] str_nat.simps [of n])
    next
      case False
      with m "1.prems" have e: "str_nat (m div 10) = str_nat (n div 10)"
        and d: "digit_char (m mod 10) = digit_char (n mod 10)"
        by (simp_all add: str_nat.simps [of m] str_nat.simps [of n])
      from "1.IH" [OF m e] have "m div 10 = n div 10" .
      moreover from d have "m mod 10 = n mod 10"
        by (rule digit_char_inj [rotated 2]) simp_all
      ultimately show ?thesis
        by (metis div_mult_mod_eq)
    qed
  qed
qed

lemma str_int_inj: "str_int i = str_int j \<Longrightarrow> i = j"
proof -
  assume e: "str_int i = str_int j"
  have nd: "CHR ''-'' \<notin> set (str_nat n)" for n
    using str_nat_digits [of n] by auto
  have hd: "str_nat n \<noteq> CHR ''-'' # s" for n s
    using nd [of n] by auto
  show ?thesis
  proof (cases "i < 0"; cases "j < 0")
    assume "i < 0" "j < 0"
    with e have "nat (- i) = nat (- j)"
      by (simp add: str_int_def str_nat_inj)
    with \<open>i < 0\<close> \<open>j < 0\<close> show ?thesis by simp
  next
    assume "i < 0" "\<not> j < 0"
    with e hd show ?thesis by (simp add: str_int_def) metis
  next
    assume "\<not> i < 0" "j < 0"
    with e hd show ?thesis by (simp add: str_int_def)
  next
    assume "\<not> i < 0" "\<not> j < 0"
    with e have "nat i = nat j"
      by (simp add: str_int_def str_nat_inj)
    with \<open>\<not> i < 0\<close> \<open>\<not> j < 0\<close> show ?thesis by simp
  qed
qed

lemma map_of_setitem: "map_of (setitem k v d) = (map_of d)(k \<mapsto> v)"
  by (induction d) (auto simp: fun_eq_iff)

lemma setitem_fresh: "k \<notin> fst ` set d \<Longrightarrow> setitem k v d = d @ [(k, v)]"
  by (induction d) auto

lemma setitem_nonempty: "setitem k v d \<noteq> []"
  by (cases d) (auto split: if_splits)

lemma setitem_twice: "setitem k w (setitem k v d) = setitem k w d"
  by (induction d) auto

lemma foldl_setitem_fresh:
  assumes "distinct (map fst kvs)" and "fst ` set kvs \<inter> fst ` set d = {}"
  shows "foldl (\<lambda>r (k, v). setitem k v r) d kvs = d @ kvs"
  using assms
proof (induction kvs arbitrary: d)
  case Nil
  then show ?case by simp
next
  case (Cons kv kvs)
  obtain k v where kv: "kv = (k, v)" by (cases kv)
  from Cons.prems kv have f: "k \<notin> fst ` set d" by auto
  have "foldl (\<lambda>r (k, v). setitem k v r) (d @ [(k, v)]) kvs = (d @ [(k, v)]) @ kvs"
    using Cons.prems kv by (intro Cons.IH) auto
  with f kv show ?case by (simp add: setitem_fresh)
qed

section \<open>The verified write of a Coils-A flag\<close>

text \<open>
  Claim C1. Once \<open>ensure_connected\<close> has said yes, \<open>write_m_coil\<close> first issues the
  multi-coil write. When that write is taken for a success (response \<open>rw\<close>), it waits
  50 ms and reads one coil back at the same offset (response \<open>rv\<close>). When the read-back
  carries the requested state, the result is \<open>True\<close> and the trace ends with the read:
  there is no fallback call. Otherwise there is exactly one more transaction, the
  single-coil write (response \<open>rf\<close>), and its outcome is the result. Nothing follows in
  either path.
\<close>

theorem write_m_coil_dual_path:
  assumes "ensure_connected T p = (True, q)"
    and "transact T (WriteCoils (M_OFFSET + a) [st] (slave_address q)) (line q) = (rw, lw)"
    and "accepted rw"
    and "transact T (ReadCoils (M_OFFSET + a) 1 (slave_address q)) lw = (rv, lv)"
    and "transact T (WriteCoil (M_OFFSET + a) st (slave_address q)) lv = (rf, lf)"
  shows "write_m_coil T a st p =
     (if verified st rv then
        (True, q\<lparr>line := lv, trace := trace q @
           [Call (WriteCoils (M_OFFSET + a) [st] (slave_address q)), Sleep 50,
            Call (ReadCoils (M_OFFSET + a) 1 (slave_address q))]\<rparr>)
      else
        (accepted rf, q\<lparr>line := lf, trace := trace q @
           [Call (WriteCoils (M_OFFSET + a) [st] (slave_address q)), Sleep 50,
            Call (ReadCoils (M_OFFSET + a) 1 (slave_address q)),
            Call (WriteCoil (M_OFFSET + a) st (slave_address q))]\<rparr>))"
  using write_m_coil_connected [OF ensure_connected_True(1) [OF assms(1)] assms(2) assms(4) assms(5)]
    assms(3) write_m_coil_after_connect [OF assms(1), of a st]
  by simp

theorem write_m_coil_dual_path_witness:
  "write_m_coil (scripted True) 100 True (station True [WriteAck, Bits [True], WriteAck]) =
     (True, \<lparr>connected = True, slave_address = 1, line = [WriteAck],
             trace = [Call (WriteCoils 2148 [True] 1), Sleep 50, Call (ReadCoils 2148 1 1)]\<rparr>)
   \<and> write_m_coil (scripted True) 100 True (station True [WriteAck, Bits [False], ErrorResponse]) =
     (False, \<lparr>connected = True, slave_address = 1, line = [],
             trace = [Call (WriteCoils 2148 [True] 1), Sleep 50, Call (ReadCoils 2148 1 1),
                      Call (WriteCoil 2148 True 1)]\<rparr>)"
proof
  have c: "ensure_connected (scripted True) (station True s) = (True, station True s)" for s
    by (simp add: ensure_connected_def station_sel)
  have a: "accepted WriteAck"
    by (simp add: accepted_def)
  have "write_m_coil (scripted True) 100 True (station True [WriteAck, Bits [True], WriteAck]) =
     (if verified True (Bits [True]) then
        (True, (station True [WriteAck, Bits [True], WriteAck])\<lparr>line := [WriteAck], trace := trace (station True [WriteAck, Bits [True], WriteAck]) @
           [Call (WriteCoils (M_OFFSET + 100) [True] (slave_address (station True [WriteAck, Bits [True], WriteAck]))), Sleep 50,
            Call (ReadCoils (M_OFFSET + 100) 1 (slave_address (station True [WriteAck, Bits [True], WriteAck])))]\<rparr>)
      else
        (accepted WriteAck, (station True [WriteAck, Bits [True], WriteAck])\<lparr>line := [], trace := trace (station True [WriteAck, Bits [True], WriteAck]) @
           [Call (WriteCoils (M_OFFSET + 100) [True] (slave_address (station True [WriteAck, Bits [True], WriteAck]))), Sleep 50,
            Call (ReadCoils (M_OFFSET + 100) 1 (slave_address (station True [WriteAck, Bits [True], WriteAck]))),
            Call (WriteCoil (M_OFFSET + 100) True (slave_address (station True [WriteAck, Bits [True], WriteAck])))]\<rparr>))"
    by (rule write_m_coil_dual_path [OF c _ a, where lw = "[Bits [True], WriteAck]"])
      (simp_all add: scripted_transact station_sel)
  then show "write_m_coil (scripted True) 100 True (station True [WriteAck, Bits [True], WriteAck]) =
     (True, \<lparr>connected = True, slave_address = 1, line = [WriteAck],
             trace = [Call (WriteCoils 2148 [True] 1), Sleep 50, Call (ReadCoils 2148 1 1)]\<rparr>)"
    by (simp add: station_def M_OFFSET_def)
  have "write_m_coil (scripted True) 100 True (station True [WriteAck, Bits [False], ErrorResponse]) =
     (if verified True (Bits [False]) then
        (True, (station True [WriteAck, Bits [False], ErrorResponse])\<lparr>line := [ErrorResponse], trace := trace (station True [WriteAck, Bits [False], ErrorResponse]) @
           [Call (WriteCoils (M_OFFSET + 100) [True] (slave_address (station True [WriteAck, Bits [False], ErrorResponse]))), Sleep 50,
            Call (ReadCoils (M_OFFSET + 100) 1 (slave_address (station True [WriteAck, Bits [False], ErrorResponse])))]\<rparr>)
      else
        (accepted ErrorResponse, (station True [WriteAck, Bits [False], ErrorResponse])\<lparr>line := [], trace := trace (station True [WriteAck, Bits [False], ErrorResponse]) @
           [Call (WriteCoils (M_OFFSET + 100) [True] (slave_address (station True [WriteAck, Bits [False], ErrorResponse]))), Sleep 50,
            Call (ReadCoils (M_OFFSET + 100) 1 (slave_address (station True [WriteAck, Bits [False], ErrorResponse]))),
            Call (WriteCoil (M_OFFSET + 100) True (slave_address (station True [WriteAck, Bits [False], ErrorResponse])))]\<rparr>))"
    by (rule write_m_coil_dual_path [OF c _ a, where lw = "[Bits [False], ErrorResponse]"])
      (simp_all add: scripted_transact station_sel)
  then show "write_m_coil (scripted True) 100 True (station True [WriteAck, Bits [False], ErrorResponse]) =
     (False, \<lparr>connected = True, slave_address = 1, line = [],
             trace = [Call (WriteCoils 2148 [True] 1), Sleep 50, Call (ReadCoils 2148 1 1),
                      Call (WriteCoil 2148 True 1)]\<rparr>)"
    by (simp add: station_def M_OFFSET_def accepted_def)
qed

text \<open>
  Claim C9. After a multi-coil write that was taken for a success, the read-back gives
  \<open>verify\<close>. The write is verified only when \<open>verify\<close> is a list whose first bit is the
  requested state; in every other case the single-coil write is made and decides the
  result. In particular a read-back that failed (\<open>None\<close>) is followed by the single-coil
  write, which is the one transaction issued after it.
\<close>

theorem write_m_coil_read_back_failure:
  assumes "ensure_connected T p = (True, q)"
    and "client_call T (WriteCoils (M_OFFSET + a) [st] (slave_address q)) q = (rw, pw)"
    and "accepted rw"
    and "read_m_coils T a 1 (sleep 50 pw) = (verify, pv)"
  shows "write_m_coil T a st p =
           (if \<exists>bs. verify = Some (st # bs) then (True, pv) else write_m_coil_alt T a st pv)
         \<and> (verify = None \<longrightarrow>
              write_m_coil T a st p = write_m_coil_alt T a st pv
              \<and> new_events pv (snd (write_m_coil T a st p)) =
                  [Call (WriteCoil (M_OFFSET + a) st (slave_address pv))])"
proof -
  have eq: "write_m_coil T a st p =
           (if \<exists>bs. verify = Some (st # bs) then (True, pv) else write_m_coil_alt T a st pv)"
  proof (cases verify)
    case None
    with assms show ?thesis
      by (cases rw) (simp_all add: write_m_coil_def accepted_def)
  next
    case (Some bs)
    with assms show ?thesis
      by (cases rw; cases bs) (simp_all add: write_m_coil_def accepted_def)
  qed
  moreover have "new_events pv (snd (write_m_coil_alt T a st pv)) =
      [Call (WriteCoil (M_OFFSET + a) st (slave_address pv))]"
    by (rule new_events_append) (simp add: write_m_coil_alt_eq)
  ultimately show ?thesis by simp
qed

theorem write_m_coil_read_back_failure_witness:
  "write_m_coil (scripted True) 100 True (station True [WriteAck, ErrorResponse, WriteAck]) =
     write_m_coil_alt (scripted True) 100 True
       \<lparr>connected = True, slave_address = 1, line = [WriteAck],
        trace = [Call (WriteCoils 2148 [True] 1), Sleep 50, Call (ReadCoils 2148 1 1)]\<rparr>
   \<and> fst (write_m_coil (scripted True) 100 True (station True [WriteAck, ErrorResponse, WriteAck]))
   \<and> trace (snd (write_m_coil (scripted True) 100 True
         (station True [WriteAck, ErrorResponse, WriteAck]))) =
       [Call (WriteCoils 2148 [True] 1), Sleep 50, Call (ReadCoils 2148 1 1),
        Call (WriteCoil 2148 True 1)]"
proof -
  let ?p = "station True [WriteAck, ErrorResponse, WriteAck]"
  let ?pw = "\<lparr>connected = True, slave_address = 1, line = [ErrorResponse, WriteAck],
        trace = [Call (WriteCoils 2148 [True] 1)]\<rparr>"
  let ?pv = "\<lparr>connected = True, slave_address = 1, line = [WriteAck],
        trace = [Call (WriteCoils 2148 [True] 1), Sleep 50, Call (ReadCoils 2148 1 1)]\<rparr>"
  have 1: "ensure_connected (scripted True) ?p = (True, ?p)"
    by (simp add: ensure_connected_def station_sel)
  have 2: "client_call (scripted True) (WriteCoils (M_OFFSET + 100) [True] (slave_address ?p)) ?p
      = (WriteAck, ?pw)"
    by (simp add: client_call_eq scripted_transact station_def M_OFFSET_def)
  have 3: "accepted WriteAck"
    by (simp add: accepted_def)
  have 4: "read_m_coils (scripted True) 100 1 (sleep 50 ?pw) = (None, ?pv)"
    by (simp add: read_back_eq sleep_def scripted_transact M_OFFSET_def)
  from write_m_coil_read_back_failure [OF 1 2 3 4]
  have "write_m_coil (scripted True) 100 True ?p = write_m_coil_alt (scripted True) 100 True ?pv"
    by simp
  then show ?thesis
    by (simp add: write_m_coil_alt_eq scripted_transact accepted_def M_OFFSET_def)
qed

section \<open>The address map\<close>



section \<open>The lazy reconnect\<close>

text \<open>
  Claim C6. \<open>ensure_connected\<close> returns the connection flag it leaves behind and makes
  one connection attempt when the interface was not connected, none otherwise. Each of
  the four reads and the three writes is guarded by it: the operation makes no attempt
  when the interface was connected and exactly one, before anything else, when it was
  not; and when that attempt fails, the read returns \<open>None\<close>, the write returns \<open>False\<close>,
  and the attempt is the only event: no transaction is issued.
\<close>

theorem ensure_connected_guards_every_operation:
  "fst (ensure_connected T p) = connected (snd (ensure_connected T p))
   \<and> new_events p (snd (ensure_connected T p)) = (if connected p then [] else [Connect])
   \<and> lazy_connect_once T p (snd (read_d_registers T a c p)) (fst (read_d_registers T a c p) = None)
   \<and> lazy_connect_once T p (snd (read_m_coils T a c p)) (fst (read_m_coils T a c p) = None)
   \<and> lazy_connect_once T p (snd (read_x_inputs T a c p)) (fst (read_x_inputs T a c p) = None)
   \<and> lazy_connect_once T p (snd (read_y_outputs T a c p)) (fst (read_y_outputs T a c p) = None)
   \<and> lazy_connect_once T p (snd (write_d_register T a v p)) (\<not> fst (write_d_register T a v p))
   \<and> lazy_connect_once T p (snd (write_m_coil T a st p)) (\<not> fst (write_m_coil T a st p))
   \<and> lazy_connect_once T p (snd (write_y_output T a st p)) (\<not> fst (write_y_output T a st p))"
proof -
  have "fst (ensure_connected T p) = connected (snd (ensure_connected T p))"
    by (simp add: ensure_connected_eq)
  moreover have "new_events p (snd (ensure_connected T p)) = (if connected p then [] else [Connect])"
    by (rule new_events_append) (simp add: ensure_connected_eq)
  moreover have "lazy_connect_once T p (snd (read_d_registers T a c p)) (fst (read_d_registers T a c p) = None)"
    by (rule step_events_lazy [OF read_d_registers_events read_d_registers_refused])
  moreover have "lazy_connect_once T p (snd (read_m_coils T a c p)) (fst (read_m_coils T a c p) = None)"
    by (rule step_events_lazy [OF read_m_coils_events read_m_coils_refused])
  moreover have "lazy_connect_once T p (snd (read_x_inputs T a c p)) (fst (read_x_inputs T a c p) = None)"
    by (rule step_events_lazy [OF read_x_inputs_events read_x_inputs_refused])
  moreover have "lazy_connect_once T p (snd (read_y_outputs T a c p)) (fst (read_y_outputs T a c p) = None)"
    by (rule step_events_lazy [OF read_y_outputs_events read_y_outputs_refused])
  moreover have "lazy_connect_once T p (snd (write_d_register T a v p)) (\<not> fst (write_d_register T a v p))"
    by (rule step_events_lazy [OF write_d_register_events write_d_register_refused])
  moreover have "lazy_connect_once T p (snd (write_m_coil T a st p)) (\<not> fst (write_m_coil T a st p))"
    by (rule step_events_lazy [OF write_m_coil_step_events])
  moreover have "lazy_connect_once T p (snd (write_y_output T a st p)) (\<not> fst (write_y_output T a st p))"
    by (rule step_events_lazy [OF write_y_output_events write_y_output_refused])
  ultimately show ?thesis by blast
qed

theorem ensure_connected_guards_every_operation_witness:
  "\<not> fst (ensure_connected (scripted False) (station False [WriteAck]))
   \<and> fst (read_d_registers (scripted False) 0 10 (station False [WriteAck])) = None
   \<and> new_events (station False [WriteAck])
        (snd (read_d_registers (scripted False) 0 10 (station False [WriteAck]))) = [Connect]
   \<and> \<not> fst (write_m_coil (scripted False) 100 True (station False [WriteAck]))
   \<and> new_events (station False [WriteAck])
        (snd (write_m_coil (scripted False) 100 True (station False [WriteAck]))) = [Connect]"
proof -
  have n: "\<not> fst (ensure_connected (scripted False) (station False [WriteAck]))"
    by (simp add: ensure_connected_def connect_def scripted_transact station_sel)
  from n ensure_connected_guards_every_operation
    [where T = "scripted False" and p = "station False [WriteAck]" and a = 0 and c = 10]
  have "fst (read_d_registers (scripted False) 0 10 (station False [WriteAck])) = None
   \<and> new_events (station False [WriteAck])
        (snd (read_d_registers (scripted False) 0 10 (station False [WriteAck]))) = [Connect]"
    by (simp add: lazy_connect_once_def)
  moreover from n ensure_connected_guards_every_operation
    [where T = "scripted False" and p = "station False [WriteAck]" and a = 100 and st = True]
  have "\<not> fst (write_m_coil (scripted False) 100 True (station False [WriteAck]))
   \<and> new_events (station False [WriteAck])
        (snd (write_m_coil (scripted False) 100 True (station False [WriteAck]))) = [Connect]"
    by (simp add: lazy_connect_once_def)
  ultimately show ?thesis using n by blast
qed

section \<open>The reads\<close>

text \<open>
  \<open>read_d_registers\<close> returns \<open>response.registers\<close> as it is: asked for one register and
  answered with three, it returns the three.
\<close>

theorem registers_not_cut_counterexample:
  "fst (read_d_registers (scripted True) 0 1 (station True [Registers [7, 8, 9]])) = Some [7, 8, 9]
   \<and> length (the (fst (read_d_registers (scripted True) 0 1 (station True [Registers [7, 8, 9]]))))
       = 3"
  by (simp add: read_d_registers_def ensure_connected_def client_call_eq station_sel
      scripted_transact)

text \<open>
  Claim C5, as the code has it. Let the interface be usable and \<open>count\<close> not negative.
  When the transaction of \<open>read_d_registers\<close> returns a response with registers, the
  operation returns all of them, in order and uncut, each an unsigned 16-bit value: as
  many as the device sent, which is \<open>count\<close> when it sent what was asked for. When the
  transaction of \<open>read_m_coils\<close>, \<open>read_x_inputs\<close> or \<open>read_y_outputs\<close> returns a response
  with bits, the operation returns the first \<open>count\<close> of them, in order: exactly \<open>count\<close>
  when the response carries at least that many, never more.
\<close>

theorem reads_return_response_values:
  assumes "ensure_connected T p = (True, q)" and "0 \<le> count"
  shows
    "(transact T (ReadHoldingRegisters (D_OFFSET + start) count (slave_address q)) (line q)
          = (Registers rs, l)
        \<longrightarrow> fst (read_d_registers T start count p) = Some rs
            \<and> (\<forall>r \<in> set rs. unat r < 65536))
     \<and> (transact T (ReadCoils (M_OFFSET + start) count (slave_address q)) (line q)
          = (Bits bs, l)
        \<longrightarrow> fst (read_m_coils T start count p) = Some (take (nat count) bs)
            \<and> length (take (nat count) bs) = min (nat count) (length bs))
     \<and> (transact T (ReadDiscreteInputs (X_OFFSET + start) count (slave_address q)) (line q)
          = (Bits bs, l)
        \<longrightarrow> fst (read_x_inputs T start count p) = Some (take (nat count) bs)
            \<and> length (take (nat count) bs) = min (nat count) (length bs))
     \<and> (transact T (ReadCoils (Y_OFFSET + start) count (slave_address q)) (line q)
          = (Bits bs, l)
        \<longrightarrow> fst (read_y_outputs T start count p) = Some (take (nat count) bs)
            \<and> length (take (nat count) bs) = min (nat count) (length bs))"
proof -
  have u: "unat r < 65536" for r :: register
    using unsigned_less [of r, where 'a = nat] by simp
  have d: "transact T (ReadHoldingRegisters (D_OFFSET + start) count (slave_address q)) (line q)
          = (Registers rs, l) \<Longrightarrow> fst (read_d_registers T start count p) = Some rs"
    using assms(1) by (simp add: read_d_registers_def client_call_eq)
  have m: "transact T (ReadCoils (M_OFFSET + start) count (slave_address q)) (line q)
          = (Bits bs, l) \<Longrightarrow> fst (read_m_coils T start count p) = Some (take (nat count) bs)"
    using assms by (simp add: read_m_coils_def client_call_eq slice_to_def)
  have x: "transact T (ReadDiscreteInputs (X_OFFSET + start) count (slave_address q)) (line q)
          = (Bits bs, l) \<Longrightarrow> fst (read_x_inputs T start count p) = Some (take (nat count) bs)"
    using assms by (simp add: read_x_inputs_def client_call_eq slice_to_def)
  have y: "transact T (ReadCoils (Y_OFFSET + start) count (slave_address q)) (line q)
          = (Bits bs, l) \<Longrightarrow> fst (read_y_outputs T start count p) = Some (take (nat count) bs)"
    using assms by (simp add: read_y_outputs_def client_call_eq slice_to_def)
  show ?thesis
    using u d m x y by (simp add: min.commute)
qed

theorem reads_return_response_values_witness:
  "fst (read_d_registers (scripted True) 200 2 (station True [Registers [7, 9]])) = Some [7, 9]
   \<and> fst (read_y_outputs (scripted True) 0 3
        (station False [Bits [True, False, True, False, False, False, False, False]]))
      = Some [True, False, True]"
proof -
  have c: "ensure_connected (scripted True) (station True [Registers [7, 9]])
      = (True, station True [Registers [7, 9]])"
    by (simp add: ensure_connected_def station_sel)
  have "fst (read_d_registers (scripted True) 200 2 (station True [Registers [7, 9]])) = Some [7, 9]"
    using reads_return_response_values [OF c, where count = 2 and start = 200 and rs = "[7, 9]" and l = "[]"]
    by (simp add: scripted_transact station_sel)
  moreover
  let ?bs = "[True, False, True, False, False, False, False, False]"
  have c': "ensure_connected (scripted True) (station False [Bits ?bs])
      = (True, (station False [Bits ?bs])\<lparr>connected := True, trace := [Connect]\<rparr>)"
    by (simp add: ensure_connected_def connect_def scripted_transact station_def)
  have "fst (read_y_outputs (scripted True) 0 3 (station False [Bits ?bs])) = Some [True, False, True]"
    using reads_return_response_values [OF c', where count = 3 and start = 0 and bs = ?bs and l = "[]"]
    by (simp add: scripted_transact station_sel)
  ultimately show ?thesis by blast
qed

section \<open>Input checks of the routes\<close>

lemma write_d_register_connected:
  assumes "connected p"
  shows "write_d_register T a v p =
    (accepted (fst (transact T (WriteRegister (D_OFFSET + a) v (slave_address p)) (line p))),
     p\<lparr>line := snd (transact T (WriteRegister (D_OFFSET + a) v (slave_address p)) (line p)),
       trace := trace p @ [Call (WriteRegister (D_OFFSET + a) v (slave_address p))]\<rparr>)"
  using assms
  by (simp add: write_d_register_def ensure_connected_eq accepted_def client_call_eq
      split: prod.splits response.splits)

lemma write_y_output_connected:
  assumes "connected p"
  shows "write_y_output T a st p =
    (accepted (fst (transact T (WriteCoil (Y_OFFSET + a) st (slave_address p)) (line p))),
     p\<lparr>line := snd (transact T (WriteCoil (Y_OFFSET + a) st (slave_address p)) (line p)),
       trace := trace p @ [Call (WriteCoil (Y_OFFSET + a) st (slave_address p))]\<rparr>)"
  using assms
  by (simp add: write_y_output_def ensure_connected_eq accepted_def client_call_eq
      split: prod.splits response.splits)

lemma d_register_post_accepts:
  assumes "py_int int_of_str (get ''value'' (PInt 0) data) = Inr v" and "0 \<le> v" and "v \<le> 65535"
  shows "d_register T int_of_str POST address (Some (PDict data)) p =
      (if fst (write_d_register T (int address) v p) then
         (Doc [(''success'', PBool True), (''address'', PStr (''D'' @ str_nat address)),
               (''value'', PInt v)], 200)
       else
         (Doc [(''error'', PStr (''Failed to write D'' @ str_nat address)),
               (''connected'', PBool (connected (snd (write_d_register T (int address) v p))))], 500),
       snd (write_d_register T (int address) v p))"
  using assms by (simp add: d_register_def split: prod.splits bool.splits)

text \<open>
  The range test of the register route is made on \<open>int(value)\<close>, which cuts a fraction
  off towards zero: the posted values \<open>-0.5\<close> and \<open>65535.5\<close> lie outside 0..65535 and are
  answered with 200, after the writes of \<open>0\<close> and of \<open>65535\<close>.
\<close>

theorem fractional_value_counterexample:
  "d_register (scripted True) no_strings POST 5
       (Some (PDict [(''value'', PFloat (- (1 / 2)))])) (station True [WriteAck]) =
     ((Doc [(''success'', PBool True), (''address'', PStr ''D5''), (''value'', PInt 0)], 200),
      \<lparr>connected = True, slave_address = 1, line = [],
       trace = [Call (WriteRegister (0x1000 + 5) 0 1)]\<rparr>)
   \<and> d_register (scripted True) no_strings POST 5
       (Some (PDict [(''value'', PFloat (131071 / 2))])) (station True [WriteAck]) =
     ((Doc [(''success'', PBool True), (''address'', PStr ''D5''), (''value'', PInt 65535)], 200),
      \<lparr>connected = True, slave_address = 1, line = [],
       trace = [Call (WriteRegister (0x1000 + 5) 65535 1)]\<rparr>)"
proof -
  have k: "str_nat 5 = ''5''"
    by (simp add: str_nat.simps digit_char_def)
  have c: "\<lceil>- (1 / 2) :: rat\<rceil> = 0"
    by (simp add: ceiling_eq_iff)
  have a: "py_int no_strings (get ''value'' (PInt 0) [(''value'', PFloat (- (1 / 2)))]) = Inr 0"
    by (simp add: get_def c)
  have f: "\<lfloor>131071 / 2 :: rat\<rfloor> = 65535"
    by (simp add: floor_eq_iff)
  have b: "py_int no_strings (get ''value'' (PInt 0) [(''value'', PFloat (131071 / 2))]) = Inr 65535"
    by (simp add: get_def f)
  have w: "write_d_register (scripted True) 5 v (station True [WriteAck]) =
      (True, \<lparr>connected = True, slave_address = 1, line = [],
              trace = [Call (WriteRegister (0x1000 + 5) v 1)]\<rparr>)" for v
    by (simp add: write_d_register_connected station_def scripted_transact accepted_def D_OFFSET_def)
  show ?thesis
    by (simp add: d_register_post_accepts [OF a] d_register_post_accepts [OF b] w k)
qed

text \<open>
  Claim C4, as the code has it. A POST to the register route whose \<open>value\<close>, as \<open>int\<close>
  converts it, lies outside 0..65535 is answered with 400 and leaves the interface as it
  was: no transaction and no connection attempt. A converted value inside the range goes
  to \<open>write_d_register\<close> as converted, and the answer is 200 or 500 as that write
  succeeds or fails. A range read of more than 100 registers is answered with 400, again
  without touching the interface.
\<close>

theorem malformed_input_rejected_locally:
  "(py_int int_of_str (get ''value'' (PInt 0) data) = Inr v \<and> \<not> (0 \<le> v \<and> v \<le> 65535)
      \<longrightarrow> d_register T int_of_str POST address (Some (PDict data)) p =
            ((Doc [(''error'', PStr ''Value must be 0-65535'')], 400), p))
   \<and> (py_int int_of_str (get ''value'' (PInt 0) data) = Inr v \<and> 0 \<le> v \<and> v \<le> 65535
      \<longrightarrow> snd (d_register T int_of_str POST address (Some (PDict data)) p) =
            snd (write_d_register T (int address) v p)
          \<and> snd (fst (d_register T int_of_str POST address (Some (PDict data)) p)) =
            (if fst (write_d_register T (int address) v p) then 200 else 500))
   \<and> (100 < count
      \<longrightarrow> d_register_range T start count p =
            ((Doc [(''error'', PStr ''Maximum 100 registers per request'')], 400), p))"
proof -
  have "py_int int_of_str (get ''value'' (PInt 0) data) = Inr v \<Longrightarrow> \<not> (0 \<le> v \<and> v \<le> 65535)
      \<Longrightarrow> d_register T int_of_str POST address (Some (PDict data)) p =
            ((Doc [(''error'', PStr ''Value must be 0-65535'')], 400), p)"
    by (simp add: d_register_def)
  moreover have "py_int int_of_str (get ''value'' (PInt 0) data) = Inr v \<Longrightarrow> 0 \<le> v \<Longrightarrow> v \<le> 65535
      \<Longrightarrow> snd (d_register T int_of_str POST address (Some (PDict data)) p) =
            snd (write_d_register T (int address) v p)
          \<and> snd (fst (d_register T int_of_str POST address (Some (PDict data)) p)) =
            (if fst (write_d_register T (int address) v p) then 200 else 500)"
    by (simp add: d_register_post_accepts)
  moreover have "100 < count \<Longrightarrow> d_register_range T start count p =
            ((Doc [(''error'', PStr ''Maximum 100 registers per request'')], 400), p)"
    by (simp add: d_register_range_def)
  ultimately show ?thesis by blast
qed

theorem malformed_input_rejected_locally_witness:
  "d_register (scripted True) (\<lambda>s. None) POST 5 (Some (PDict [(''value'', PInt 70000)]))
       (station True [WriteAck]) =
     ((Doc [(''error'', PStr ''Value must be 0-65535'')], 400), station True [WriteAck])
   \<and> d_register (scripted True) (\<lambda>s. None) POST 5 (Some (PDict [(''value'', PInt (- 1))]))
       (station True [WriteAck]) =
     ((Doc [(''error'', PStr ''Value must be 0-65535'')], 400), station True [WriteAck])
   \<and> trace (snd (d_register (scripted True) (\<lambda>s. None) POST 5
        (Some (PDict [(''value'', PInt 65535)])) (station True [WriteAck]))) =
     [Call (WriteRegister (0x1000 + 5) 65535 1)]
   \<and> snd (fst (d_register (scripted True) (\<lambda>s. None) POST 5
        (Some (PDict [(''value'', PInt 65535)])) (station True [WriteAck]))) = 200
   \<and> d_register_range (scripted True) 0 101 (station True [Registers []]) =
     ((Doc [(''error'', PStr ''Maximum 100 registers per request'')], 400),
      station True [Registers []])"
proof -
  have w: "write_d_register (scripted True) 5 65535 (station True [WriteAck]) =
      (True, (station True [WriteAck])\<lparr>line := [],
         trace := [Call (WriteRegister (0x1000 + 5) 65535 1)]\<rparr>)"
    by (simp add: write_d_register_connected station_sel scripted_transact accepted_def D_OFFSET_def)
  have "d_register (scripted True) (\<lambda>s. None) POST 5 (Some (PDict [(''value'', PInt 70000)]))
       (station True [WriteAck]) =
     ((Doc [(''error'', PStr ''Value must be 0-65535'')], 400), station True [WriteAck])"
    using malformed_input_rejected_locally [where int_of_str = "\<lambda>s. None"
        and data = "[(''value'', PInt 70000)]" and v = 70000 and T = "scripted True"
        and address = 5 and p = "station True [WriteAck]"]
    by (simp add: get_def)
  moreover have "d_register (scripted True) (\<lambda>s. None) POST 5 (Some (PDict [(''value'', PInt (- 1))]))
       (station True [WriteAck]) =
     ((Doc [(''error'', PStr ''Value must be 0-65535'')], 400), station True [WriteAck])"
    using malformed_input_rejected_locally [where int_of_str = "\<lambda>s. None"
        and data = "[(''value'', PInt (- 1))]" and v = "- 1" and T = "scripted True"
        and address = 5 and p = "station True [WriteAck]"]
    by (simp add: get_def)
  moreover have "trace (snd (d_register (scripted True) (\<lambda>s. None) POST 5
        (Some (PDict [(''value'', PInt 65535)])) (station True [WriteAck]))) =
     [Call (WriteRegister (0x1000 + 5) 65535 1)]
   \<and> snd (fst (d_register (scripted True) (\<lambda>s. None) POST 5
        (Some (PDict [(''value'', PInt 65535)])) (station True [WriteAck]))) = 200"
    using malformed_input_rejected_locally [where int_of_str = "\<lambda>s. None"
        and data = "[(''value'', PInt 65535)]" and v = 65535 and T = "scripted True"
        and address = 5 and p = "station True [WriteAck]"]
    by (simp add: get_def w)
  moreover have "d_register_range (scripted True) 0 101 (station True [Registers []]) =
     ((Doc [(''error'', PStr ''Maximum 100 registers per request'')], 400),
      station True [Registers []])"
    using malformed_input_rejected_locally [where count = 101 and T = "scripted True"
        and start = 0 and p = "station True [Registers []]"]
    by simp
  ultimately show ?thesis by blast
qed

lemma get_missing:
  assumes "map_of d k = None"
  shows "get k dflt d = dflt" and "get k dflt (d @ [(k, dflt)]) = dflt"
  using assms by (simp_all add: get_def map_add_def)

lemma m_coil_post:
  "m_coil T POST address (Some (PDict data)) p =
     (if fst (write_m_coil T (int address) (truthy (get ''state'' (PBool False) data)) p) then
        (Doc [(''success'', PBool True), (''address'', PStr (''M'' @ str_nat address)),
              (''state'', PBool (truthy (get ''state'' (PBool False) data)))], 200)
      else
        (Doc [(''error'', PStr (''Failed to write M'' @ str_nat address)),
              (''connected'', PBool (connected (snd (write_m_coil T (int address)
                 (truthy (get ''state'' (PBool False) data)) p))))], 500),
      snd (write_m_coil T (int address) (truthy (get ''state'' (PBool False) data)) p))"
  by (simp add: m_coil_def Let_def split: prod.splits bool.splits)

lemma y_output_post:
  "y_output T POST address (Some (PDict data)) p =
     (if fst (write_y_output T (int address) (truthy (get ''state'' (PBool False) data)) p) then
        (Doc [(''success'', PBool True), (''address'', PStr (''Y'' @ str_nat address)),
              (''state'', PBool (truthy (get ''state'' (PBool False) data)))], 200)
      else
        (Doc [(''error'', PStr (''Failed to write Y'' @ str_nat address)),
              (''connected'', PBool (connected (snd (write_y_output T (int address)
                 (truthy (get ''state'' (PBool False) data)) p))))], 500),
      snd (write_y_output T (int address) (truthy (get ''state'' (PBool False) data)) p))"
  by (simp add: y_output_def Let_def split: prod.splits bool.splits)

lemma write_m_coil_first_event:
  assumes "connected p"
  shows "take 1 (new_events p (snd (write_m_coil T a st p))) =
     [Call (WriteCoils (M_OFFSET + a) [st] (slave_address p))]"
proof -
  obtain r1 l1 where 1: "transact T (WriteCoils (M_OFFSET + a) [st] (slave_address p)) (line p) = (r1, l1)"
    by (cases "transact T (WriteCoils (M_OFFSET + a) [st] (slave_address p)) (line p)")
  obtain r2 l2 where 2: "transact T (ReadCoils (M_OFFSET + a) 1 (slave_address p)) l1 = (r2, l2)"
    by (cases "transact T (ReadCoils (M_OFFSET + a) 1 (slave_address p)) l1")
  obtain r3 l3 where 3: "transact T (WriteCoil (M_OFFSET + a) st (slave_address p)) l2 = (r3, l3)"
    by (cases "transact T (WriteCoil (M_OFFSET + a) st (slave_address p)) l2")
  show ?thesis
    unfolding write_m_coil_connected [OF assms 1 2 3] by (simp add: new_events_def)
qed

text \<open>
  Claim C10. A POST whose JSON object has no \<open>value\<close> field (register route) or no
  \<open>state\<close> field (coil and output routes) is handled exactly as if the field were there
  with the default, \<open>0\<close> or \<open>False\<close>: the request is not rejected, the write operation
  is called with the default, the answer is 200 or 500 as that write succeeds or fails,
  and on a connected interface the write transaction with the default goes out.
\<close>

theorem missing_field_takes_default:
  "(map_of data ''value'' = None \<longrightarrow>
      d_register T int_of_str POST address (Some (PDict data)) p =
        d_register T int_of_str POST address (Some (PDict (data @ [(''value'', PInt 0)]))) p
      \<and> snd (d_register T int_of_str POST address (Some (PDict data)) p) =
          snd (write_d_register T (int address) 0 p)
      \<and> snd (fst (d_register T int_of_str POST address (Some (PDict data)) p)) =
          (if fst (write_d_register T (int address) 0 p) then 200 else 500)
      \<and> (connected p \<longrightarrow>
           new_events p (snd (d_register T int_of_str POST address (Some (PDict data)) p)) =
             [Call (WriteRegister (D_OFFSET + int address) 0 (slave_address p))]))
   \<and> (map_of data ''state'' = None \<longrightarrow>
      m_coil T POST address (Some (PDict data)) p =
        m_coil T POST address (Some (PDict (data @ [(''state'', PBool False)]))) p
      \<and> snd (m_coil T POST address (Some (PDict data)) p) =
          snd (write_m_coil T (int address) False p)
      \<and> snd (fst (m_coil T POST address (Some (PDict data)) p)) =
          (if fst (write_m_coil T (int address) False p) then 200 else 500)
      \<and> (connected p \<longrightarrow>
           take 1 (new_events p (snd (m_coil T POST address (Some (PDict data)) p))) =
             [Call (WriteCoils (M_OFFSET + int address) [False] (slave_address p))]))
   \<and> (map_of data ''state'' = None \<longrightarrow>
      y_output T POST address (Some (PDict data)) p =
        y_output T POST address (Some (PDict (data @ [(''state'', PBool False)]))) p
      \<and> snd (y_output T POST address (Some (PDict data)) p) =
          snd (write_y_output T (int address) False p)
      \<and> snd (fst (y_output T POST address (Some (PDict data)) p)) =
          (if fst (write_y_output T (int address) False p) then 200 else 500)
      \<and> (connected p \<longrightarrow>
           new_events p (snd (y_output T POST address (Some (PDict data)) p)) =
             [Call (WriteCoil (Y_OFFSET + int address) False (slave_address p))]))"
proof (intro conjI impI)
  assume v: "map_of data ''value'' = None"
  have i: "py_int int_of_str (get ''value'' (PInt 0) data) = Inr 0"
    "py_int int_of_str (get ''value'' (PInt 0) (data @ [(''value'', PInt 0)])) = Inr 0"
    by (simp_all add: get_missing [OF v])
  show "d_register T int_of_str POST address (Some (PDict data)) p =
        d_register T int_of_str POST address (Some (PDict (data @ [(''value'', PInt 0)]))) p"
    by (simp add: d_register_post_accepts [OF i(1)] d_register_post_accepts [OF i(2)])
  show "snd (d_register T int_of_str POST address (Some (PDict data)) p) =
          snd (write_d_register T (int address) 0 p)"
    by (simp add: d_register_post_accepts [OF i(1)])
  show "snd (fst (d_register T int_of_str POST address (Some (PDict data)) p)) =
          (if fst (write_d_register T (int address) 0 p) then 200 else 500)"
    by (simp add: d_register_post_accepts [OF i(1)])
  show "new_events p (snd (d_register T int_of_str POST address (Some (PDict data)) p)) =
             [Call (WriteRegister (D_OFFSET + int address) 0 (slave_address p))]"
    if "connected p"
    using that
    by (simp add: d_register_post_accepts [OF i(1)] write_d_register_connected new_events_def)
next
  assume s: "map_of data ''state'' = None"
  show "m_coil T POST address (Some (PDict data)) p =
        m_coil T POST address (Some (PDict (data @ [(''state'', PBool False)]))) p"
    by (simp add: m_coil_post get_missing [OF s])
  show "snd (m_coil T POST address (Some (PDict data)) p) =
          snd (write_m_coil T (int address) False p)"
    by (simp add: m_coil_post get_missing [OF s])
  show "snd (fst (m_coil T POST address (Some (PDict data)) p)) =
          (if fst (write_m_coil T (int address) False p) then 200 else 500)"
    by (simp add: m_coil_post get_missing [OF s])
  show "take 1 (new_events p (snd (m_coil T POST address (Some (PDict data)) p))) =
             [Call (WriteCoils (M_OFFSET + int address) [False] (slave_address p))]"
    if "connected p"
    using write_m_coil_first_event [OF that, of T "int address" False]
    by (simp add: m_coil_post get_missing [OF s])
next
  assume s: "map_of data ''state'' = None"
  show "y_output T POST address (Some (PDict data)) p =
        y_output T POST address (Some (PDict (data @ [(''state'', PBool False)]))) p"
    by (simp add: y_output_post get_missing [OF s])
  show "snd (y_output T POST address (Some (PDict data)) p) =
          snd (write_y_output T (int address) False p)"
    by (simp add: y_output_post get_missing [OF s])
  show "snd (fst (y_output T POST address (Some (PDict data)) p)) =
          (if fst (write_y_output T (int address) False p) then 200 else 500)"
    by (simp add: y_output_post get_missing [OF s])
  show "new_events p (snd (y_output T POST address (Some (PDict data)) p)) =
             [Call (WriteCoil (Y_OFFSET + int address) False (slave_address p))]"
    if "connected p"
    using that
    by (simp add: y_output_post get_missing [OF s] write_y_output_connected new_events_def)
qed

theorem missing_field_takes_default_witness:
  "new_events (station True [WriteAck])
      (snd (d_register (scripted True) (\<lambda>s. None) POST 200 (Some (PDict [])) (station True [WriteAck])))
     = [Call (WriteRegister (0x1000 + 200) 0 1)]
   \<and> snd (fst (d_register (scripted True) (\<lambda>s. None) POST 200 (Some (PDict []))
        (station True [WriteAck]))) = 200
   \<and> new_events (station True [WriteAck])
      (snd (y_output (scripted True) POST 1 (Some (PDict [(''on'', PBool True)]))
         (station True [WriteAck])))
     = [Call (WriteCoil (0x0500 + 1) False 1)]
   \<and> take 1 (new_events (station True [WriteAck, Bits [False]])
      (snd (m_coil (scripted True) POST 100 (Some (PDict [])) (station True [WriteAck, Bits [False]]))))
     = [Call (WriteCoils (0x0800 + 100) [False] 1)]"
proof -
  have w: "fst (write_d_register (scripted True) 200 0 (station True [WriteAck]))"
    by (simp add: write_d_register_connected station_sel scripted_transact accepted_def)
  have e: "map_of ([] :: dict) k = None" for k
    by simp
  have o: "map_of [(''on'', PBool True)] ''state'' = None"
    by simp
  note d = missing_field_takes_default [where data = "[]" and T = "scripted True"
        and int_of_str = "\<lambda>s. None" and address = 200 and p = "station True [WriteAck]",
        THEN conjunct1, rule_format, OF e, THEN conjunct2]
  note y = missing_field_takes_default [where data = "[(''on'', PBool True)]"
        and T = "scripted True" and address = 1 and p = "station True [WriteAck]",
        THEN conjunct2, THEN conjunct2, rule_format, OF o, THEN conjunct2]
  note m = missing_field_takes_default [where data = "[]" and T = "scripted True"
        and address = 100 and p = "station True [WriteAck, Bits [False]]",
        THEN conjunct2, THEN conjunct1, rule_format, OF e, THEN conjunct2]
  have "new_events (station True [WriteAck])
      (snd (d_register (scripted True) (\<lambda>s. None) POST 200 (Some (PDict [])) (station True [WriteAck])))
     = [Call (WriteRegister (0x1000 + 200) 0 1)]"
    using d [THEN conjunct2, THEN conjunct2] by (simp add: station_sel D_OFFSET_def)
  moreover have "snd (fst (d_register (scripted True) (\<lambda>s. None) POST 200 (Some (PDict []))
        (station True [WriteAck]))) = 200"
    using d [THEN conjunct2, THEN conjunct1] w by simp
  moreover have "new_events (station True [WriteAck])
      (snd (y_output (scripted True) POST 1 (Some (PDict [(''on'', PBool True)]))
         (station True [WriteAck])))
     = [Call (WriteCoil (0x0500 + 1) False 1)]"
    using y [THEN conjunct2, THEN conjunct2] by (simp add: station_sel Y_OFFSET_def)
  moreover have "take 1 (new_events (station True [WriteAck, Bits [False]])
      (snd (m_coil (scripted True) POST 100 (Some (PDict [])) (station True [WriteAck, Bits [False]]))))
     = [Call (WriteCoils (0x0800 + 100) [False] 1)]"
    using m [THEN conjunct2, THEN conjunct2] by (simp add: station_sel M_OFFSET_def)
  ultimately show ?thesis by blast
qed

section \<open>The bulk writes\<close>

lemma run_writes_length: "length (fst (run_writes w es p)) = length es"
  by (induction w es p rule: run_writes.induct) (auto split: prod.splits)

lemma bulk_loop_run:
  assumes "map (\<lambda>e. int_of_str (fst e)) coils = map Some addrs"
  shows "bulk_loop write pre int_of_str coils (results, cnt) p =
     (Inr (foldl (\<lambda>r (k, v). setitem k v r) results
             (zip (map (\<lambda>a. pre @ str_int a) addrs)
                  (map PBool (fst (run_writes write (zip addrs (map (\<lambda>e. truthy (snd e)) coils)) p)))),
           cnt + length (filter id (fst (run_writes write (zip addrs (map (\<lambda>e. truthy (snd e)) coils)) p)))),
      snd (run_writes write (zip addrs (map (\<lambda>e. truthy (snd e)) coils)) p))"
  using assms
proof (induction coils arbitrary: addrs results cnt p)
  case Nil
  then show ?case by simp
next
  case (Cons kv coils)
  obtain k st where kv: "kv = (k, st)" by (cases kv)
  from Cons.prems kv obtain a rest where addrs: "addrs = a # rest"
    and a: "int_of_str k = Some a" and rest: "map (\<lambda>e. int_of_str (fst e)) coils = map Some rest"
    by (cases addrs) auto
  obtain ok p1 where w: "write a (truthy st) p = (ok, p1)"
    by (cases "write a (truthy st) p")
  obtain oks p2 where r: "run_writes write (zip rest (map (\<lambda>e. truthy (snd e)) coils)) p1 = (oks, p2)"
    by (cases "run_writes write (zip rest (map (\<lambda>e. truthy (snd e)) coils)) p1")
  show ?case
    using Cons.IH [OF rest, of "setitem (pre @ str_int a) (PBool ok) results"
        "if ok then Suc cnt else cnt" p1]
    by (simp add: kv addrs a w r)
qed

lemma bulk_write_report:
  assumes "map (\<lambda>e. int_of_str (fst e)) coils = map Some addrs" and "distinct addrs"
    and "get field (PDict []) data = PDict coils"
    and "run_writes wr (zip addrs (map (\<lambda>e. truthy (snd e)) coils)) p = (oks, p')"
  shows "bulk_write wr field pre int_of_str (Some (PDict data)) p =
     ((Doc [(''success'', PBool (length (filter id oks) = length coils)),
            (''total'', PInt (int (length coils))),
            (''succeeded'', PInt (int (length (filter id oks)))),
            (''results'', PDict (zip (map (\<lambda>a. pre @ str_int a) addrs) (map PBool oks)))],
       200), p')"
proof -
  have len: "length addrs = length coils"
    using assms(1) by (metis length_map)
  have "length oks = length (zip addrs (map (\<lambda>e. truthy (snd e)) coils))"
    using run_writes_length [of wr "zip addrs (map (\<lambda>e. truthy (snd e)) coils)" p] assms(4) by simp
  with len have lo: "length oks = length addrs" by simp
  have "inj (\<lambda>a. pre @ str_int a)"
    by (rule injI) (simp add: str_int_inj)
  with assms(2) have "distinct (map (\<lambda>a. pre @ str_int a) addrs)"
    by (simp add: distinct_map inj_on_subset [OF _ subset_UNIV])
  with lo have "distinct (map fst (zip (map (\<lambda>a. pre @ str_int a) addrs) (map PBool oks)))"
    by simp
  then have f: "foldl (\<lambda>r (k, v). setitem k v r) []
      (zip (map (\<lambda>a. pre @ str_int a) addrs) (map PBool oks))
      = zip (map (\<lambda>a. pre @ str_int a) addrs) (map PBool oks)"
    using foldl_setitem_fresh [of "zip (map (\<lambda>a. pre @ str_int a) addrs) (map PBool oks)" "[]"]
    by simp
  show ?thesis
    using assms(3) bulk_loop_run [OF assms(1), of wr pre "[]" 0 p]
    by (simp add: bulk_write_def assms(4) f)
qed

text \<open>
  Claim C7. Let the keys of a bulk payload read as pairwise distinct addresses. Then
  \<^verbatim>\<open>/api/bulk/m\<close> and \<^verbatim>\<open>/api/bulk/y\<close> answer 200 with: under \<open>results\<close>, for every entry
  in order, the key of its address with the result of its own write; \<open>succeeded\<close>, the
  number of writes that returned success; \<open>total\<close>, the number of entries; and
  \<open>success\<close>, true exactly when the two numbers are equal.
\<close>

theorem bulk_write_counts_successes:
  assumes "map (\<lambda>e. int_of_str (fst e)) entries = map Some addrs" and "distinct addrs"
  shows
    "(get ''coils'' (PDict []) data = PDict entries
      \<and> run_writes (write_m_coil T) (zip addrs (map (\<lambda>e. truthy (snd e)) entries)) p = (oks, p')
      \<longrightarrow> bulk_write_m T int_of_str (Some (PDict data)) p =
           ((Doc [(''success'', PBool (length (filter id oks) = length entries)),
                  (''total'', PInt (int (length entries))),
                  (''succeeded'', PInt (int (length (filter id oks)))),
                  (''results'', PDict (zip (map (\<lambda>a. ''M'' @ str_int a) addrs) (map PBool oks)))],
             200), p'))
     \<and> (get ''outputs'' (PDict []) data = PDict entries
      \<and> run_writes (write_y_output T) (zip addrs (map (\<lambda>e. truthy (snd e)) entries)) p = (oks, p')
      \<longrightarrow> bulk_write_y T int_of_str (Some (PDict data)) p =
           ((Doc [(''success'', PBool (length (filter id oks) = length entries)),
                  (''total'', PInt (int (length entries))),
                  (''succeeded'', PInt (int (length (filter id oks)))),
                  (''results'', PDict (zip (map (\<lambda>a. ''Y'' @ str_int a) addrs) (map PBool oks)))],
             200), p'))"
  using bulk_write_report [OF assms, where data = data and field = "''coils''"
      and wr = "write_m_coil T" and p = p and oks = oks and p' = p' and pre = "''M''"]
    bulk_write_report [OF assms, where data = data and field = "''outputs''"
      and wr = "write_y_output T" and p = p and oks = oks and p' = p' and pre = "''Y''"]
  by (simp add: bulk_write_m_def bulk_write_y_def)


theorem bulk_write_counts_successes_witness:
  "bulk_write_y (scripted True) (\<lambda>s. if s = ''0'' then Some 0 else if s = ''3'' then Some 3 else None)
      (Some (PDict [(''outputs'', PDict [(''0'', PBool True), (''3'', PBool False)])]))
      (station True [WriteAck, ErrorResponse]) =
     ((Doc [(''success'', PBool False), (''total'', PInt 2), (''succeeded'', PInt 1),
            (''results'', PDict [(''Y0'', PBool True), (''Y3'', PBool False)])], 200),
      \<lparr>connected = True, slave_address = 1, line = [],
       trace = [Call (WriteCoil (0x0500 + 0) True 1), Call (WriteCoil (0x0500 + 3) False 1)]\<rparr>)"
proof -
  let ?parse = "\<lambda>s. if s = ''0'' then Some 0 else if s = ''3'' then Some (3::int) else None"
  let ?entries = "[(''0'', PBool True), (''3'', PBool False)]"
  let ?p' = "\<lparr>connected = True, slave_address = 1, line = [] :: response list,
       trace = [Call (WriteCoil (0x0500 + 0) True 1), Call (WriteCoil (0x0500 + 3) False 1)]\<rparr>"
  have 1: "map (\<lambda>e. ?parse (fst e)) ?entries = map Some [0, 3]"
    by simp
  have 2: "distinct [0, 3 :: int]"
    by simp
  have 3: "get ''outputs'' (PDict []) [(''outputs'', PDict ?entries)] = PDict ?entries"
    by (simp add: get_def)
  have 4: "run_writes (write_y_output (scripted True))
      (zip [0, 3] (map (\<lambda>e. truthy (snd e)) ?entries)) (station True [WriteAck, ErrorResponse])
      = ([True, False], ?p')"
    by (simp add: write_y_output_connected scripted_transact station_def accepted_def Y_OFFSET_def)
  have 5: "str_int 0 = ''0''" "str_int 3 = ''3''"
    by (simp_all add: str_int_def str_nat.simps digit_char_def)
  from bulk_write_counts_successes [OF 1 2, THEN conjunct2, rule_format, OF conjI, OF 3 4]
  show ?thesis
    by (simp add: 5)
qed

section \<open>The status snapshot, in closed form\<close>

lemma setitem_same: "map_of d k = Some v \<Longrightarrow> setitem k v d = d"
  by (induction d) (auto split: if_splits)

lemma store_all_eq:
  assumes "map_of data sec = Some (PDict s)"
  shows "store_all sec pre i vs data =
     Inr (setitem sec (PDict (foldl (\<lambda>r (k, v). setitem k v r) s
        (map (\<lambda>(j, v). (pre @ str_nat j, v)) (List.enumerate i vs)))) data)"
  using assms
proof (induction vs arbitrary: i data s)
  case Nil
  then show ?case by (simp add: setitem_same)
next
  case (Cons v vs)
  let ?s = "setitem (pre @ str_nat i) v s"
  let ?data = "setitem sec (PDict ?s) data"
  have m: "map_of ?data sec = Some (PDict ?s)"
    by (simp add: map_of_setitem)
  show ?case
    using Cons.prems Cons.IH [OF m, of "Suc i"]
    by (simp add: setitem2_def setitem_twice)
qed

lemma keys_distinct:
  "distinct (map fst (map (\<lambda>(j, v). (pre @ str_nat j, v)) (List.enumerate i vs)))"
proof -
  have "inj (\<lambda>j. pre @ str_nat j)"
    by (rule injI) (simp add: str_nat_inj)
  then have "distinct (map (\<lambda>j. pre @ str_nat j) [i..<i + length vs])"
    by (simp add: distinct_map inj_on_subset [OF _ subset_UNIV])
  moreover have "map fst (map (\<lambda>(j, v). (pre @ str_nat j, v)) xs)
      = map (\<lambda>j. pre @ str_nat j) (map fst xs)" for xs :: "(nat \<times> 'a) list"
    by (induction xs) auto
  ultimately show ?thesis
    by (simp only: map_fst_enumerate)
qed

lemma store_section_eq:
  assumes "map_of data sec = Some (PDict [])"
  shows "store_section sec pre values data = Inr (setitem sec (PDict (section_of pre values)) data)"
proof (cases "values")
  case None
  with assms show ?thesis
    by (simp add: store_section_def section_of_def setitem_same)
next
  case (Some vs)
  have f: "foldl (\<lambda>r (k, v). setitem k v r) []
      (map (\<lambda>(j, v). (pre @ str_nat j, v)) (List.enumerate 0 vs))
      = map (\<lambda>(j, v). (pre @ str_nat j, v)) (List.enumerate 0 vs)"
    using foldl_setitem_fresh [OF keys_distinct, where d = "[]" and pre1 = pre and ?i1 = 0 and ?vs1 = vs]
    by simp
  show ?thesis
  proof (cases vs)
    case Nil
    with Some assms show ?thesis
      by (simp add: store_section_def section_of_def setitem_same)
  next
    case (Cons v vs')
    with Some f store_all_eq [OF assms, of pre 0 vs] show ?thesis
      by (simp add: store_section_def section_of_def)
  qed
qed

lemma section_of_length:
  "length (section_of pre values) = (case values of None \<Rightarrow> 0 | Some vs \<Rightarrow> length vs)"
  by (cases "values") (auto simp: section_of_def)

lemma section_of_empty: "section_of pre values = [] \<longleftrightarrow> values = None \<or> values = Some []"
  using section_of_length [of pre "values"] by (cases "values") auto

lemma get_all_status_eq:
  assumes "read_d_registers T 0 10 p = (dv, p1)" and "read_m_coils T 0 10 p1 = (mv, p2)"
    and "read_x_inputs T 0 8 p2 = (xv, p3)" and "read_y_outputs T 0 8 p3 = (yv, p4)"
  shows "get_all_status T now p =
     (Some [(''timestamp'', PStr now), (''connected'', PBool (connected p)),
            (''d_registers'', PDict (section_of ''D'' (map_option (map (\<lambda>w. PInt (uint w))) dv))),
            (''m_coils'', PDict (section_of ''M'' (map_option (map PBool) mv))),
            (''x_inputs'', PDict (section_of ''X'' (map_option (map PBool) xv))),
            (''y_outputs'', PDict (section_of ''Y'' (map_option (map PBool) yv)))], p4)"
proof -
  let ?d = "PDict (section_of ''D'' (map_option (map (\<lambda>w. PInt (uint w))) dv))"
  let ?m = "PDict (section_of ''M'' (map_option (map PBool) mv))"
  let ?x = "PDict (section_of ''X'' (map_option (map PBool) xv))"
  let ?y = "PDict (section_of ''Y'' (map_option (map PBool) yv))"
  let ?data0 = "[(''timestamp'', PStr now), (''connected'', PBool (connected p)),
         (''d_registers'', PDict []), (''m_coils'', PDict []),
         (''x_inputs'', PDict []), (''y_outputs'', PDict [])]"
  let ?data1 = "[(''timestamp'', PStr now), (''connected'', PBool (connected p)),
         (''d_registers'', ?d), (''m_coils'', PDict []),
         (''x_inputs'', PDict []), (''y_outputs'', PDict [])]"
  let ?data2 = "[(''timestamp'', PStr now), (''connected'', PBool (connected p)),
         (''d_registers'', ?d), (''m_coils'', ?m),
         (''x_inputs'', PDict []), (''y_outputs'', PDict [])]"
  let ?data3 = "[(''timestamp'', PStr now), (''connected'', PBool (connected p)),
         (''d_registers'', ?d), (''m_coils'', ?m),
         (''x_inputs'', ?x), (''y_outputs'', PDict [])]"
  let ?data4 = "[(''timestamp'', PStr now), (''connected'', PBool (connected p)),
         (''d_registers'', ?d), (''m_coils'', ?m),
         (''x_inputs'', ?x), (''y_outputs'', ?y)]"
  have 1: "store_section ''d_registers'' ''D'' (map_option (map (\<lambda>w. PInt (uint w))) dv) ?data0
      = Inr ?data1"
    by (subst store_section_eq) simp_all
  have 2: "store_section ''m_coils'' ''M'' (map_option (map PBool) mv) ?data1 = Inr ?data2"
    by (subst store_section_eq) simp_all
  have 3: "store_section ''x_inputs'' ''X'' (map_option (map PBool) xv) ?data2 = Inr ?data3"
    by (subst store_section_eq) simp_all
  have 4: "store_section ''y_outputs'' ''Y'' (map_option (map PBool) yv) ?data3 = Inr ?data4"
    by (subst store_section_eq) simp_all
  show ?thesis
    unfolding get_all_status_def Let_def
    by (simp only: assms prod.case 1 2 3 4 sum.case)
qed

lemma read_d_registers_connected:
  assumes "connected p"
  shows "read_d_registers T a c p =
     ((case fst (transact T (ReadHoldingRegisters (D_OFFSET + a) c (slave_address p)) (line p)) of
         Registers rs \<Rightarrow> Some rs | _ \<Rightarrow> None),
      p\<lparr>line := snd (transact T (ReadHoldingRegisters (D_OFFSET + a) c (slave_address p)) (line p)),
        trace := trace p @ [Call (ReadHoldingRegisters (D_OFFSET + a) c (slave_address p))]\<rparr>)"
  using assms
  by (simp add: read_d_registers_def ensure_connected_eq client_call_eq split: response.splits)

lemma read_m_coils_connected:
  assumes "connected p"
  shows "read_m_coils T a c p =
     ((case fst (transact T (ReadCoils (M_OFFSET + a) c (slave_address p)) (line p)) of
         Bits bs \<Rightarrow> Some (slice_to c bs) | _ \<Rightarrow> None),
      p\<lparr>line := snd (transact T (ReadCoils (M_OFFSET + a) c (slave_address p)) (line p)),
        trace := trace p @ [Call (ReadCoils (M_OFFSET + a) c (slave_address p))]\<rparr>)"
  using assms
  by (simp add: read_m_coils_def ensure_connected_eq client_call_eq split: response.splits)

lemma read_x_inputs_connected:
  assumes "connected p"
  shows "read_x_inputs T a c p =
     ((case fst (transact T (ReadDiscreteInputs (X_OFFSET + a) c (slave_address p)) (line p)) of
         Bits bs \<Rightarrow> Some (slice_to c bs) | _ \<Rightarrow> None),
      p\<lparr>line := snd (transact T (ReadDiscreteInputs (X_OFFSET + a) c (slave_address p)) (line p)),
        trace := trace p @ [Call (ReadDiscreteInputs (X_OFFSET + a) c (slave_address p))]\<rparr>)"
  using assms
  by (simp add: read_x_inputs_def ensure_connected_eq client_call_eq split: response.splits)

lemma read_y_outputs_connected:
  assumes "connected p"
  shows "read_y_outputs T a c p =
     ((case fst (transact T (ReadCoils (Y_OFFSET + a) c (slave_address p)) (line p)) of
         Bits bs \<Rightarrow> Some (slice_to c bs) | _ \<Rightarrow> None),
      p\<lparr>line := snd (transact T (ReadCoils (Y_OFFSET + a) c (slave_address p)) (line p)),
        trace := trace p @ [Call (ReadCoils (Y_OFFSET + a) c (slave_address p))]\<rparr>)"
  using assms
  by (simp add: read_y_outputs_def ensure_connected_eq client_call_eq split: response.splits)

lemma reads_port_down:
  assumes "\<not> connected p" and "port_connect T (line p) = (False, l)"
  shows "read_d_registers T a c p = (None, p\<lparr>connected := False, line := l, trace := trace p @ [Connect]\<rparr>)"
    and "read_m_coils T a c p = (None, p\<lparr>connected := False, line := l, trace := trace p @ [Connect]\<rparr>)"
    and "read_x_inputs T a c p = (None, p\<lparr>connected := False, line := l, trace := trace p @ [Connect]\<rparr>)"
    and "read_y_outputs T a c p = (None, p\<lparr>connected := False, line := l, trace := trace p @ [Connect]\<rparr>)"
  using assms
  by (simp_all add: read_d_registers_def read_m_coils_def read_x_inputs_def read_y_outputs_def
      ensure_connected_eq)

section \<open>The sub-sections of the snapshot\<close>

text \<open>
  With the port down every read of \<open>get_all_status\<close> fails, and yet the result has all
  four region sub-sections, each as an empty dictionary: a sub-section is in the result
  whether or not its read returned data.
\<close>

theorem get_all_status_sections_counterexample:
  "fst (read_d_registers (scripted False) 0 10 (station False [])) = None
   \<and> fst (get_all_status (scripted False) ''2025-01-01T00:00:00'' (station False [])) =
       Some [(''timestamp'', PStr ''2025-01-01T00:00:00''), (''connected'', PBool False),
             (''d_registers'', PDict []), (''m_coils'', PDict []),
             (''x_inputs'', PDict []), (''y_outputs'', PDict [])]
   \<and> map_of (the (fst (get_all_status (scripted False) ''2025-01-01T00:00:00'' (station False []))))
        ''d_registers'' = Some (PDict [])"
proof -
  let ?p = "station False []"
  let ?q = "\<lambda>n. \<lparr>connected = False, slave_address = 1, line = [] :: response list,
     trace = replicate n Connect\<rparr>"
  have d: "read_d_registers (scripted False) 0 10 ?p = (None, ?q 1)"
    by (subst reads_port_down(1) [where l = "[]"])
      (simp_all add: station_def scripted_transact)
  have m: "read_m_coils (scripted False) 0 10 (?q 1) = (None, ?q 2)"
    by (subst reads_port_down(2) [where l = "[]"])
      (simp_all add: scripted_transact numeral_2_eq_2)
  have x: "read_x_inputs (scripted False) 0 8 (?q 2) = (None, ?q 3)"
    by (subst reads_port_down(3) [where l = "[]"])
      (simp_all add: scripted_transact numeral_2_eq_2 numeral_3_eq_3)
  have y: "read_y_outputs (scripted False) 0 8 (?q 3) = (None, ?q 4)"
    by (subst reads_port_down(4) [where l = "[]"])
      (simp_all add: scripted_transact numeral_3_eq_3 eval_nat_numeral)
  show ?thesis
    by (simp add: get_all_status_eq [OF d m x y] d section_of_def station_sel)
qed

text \<open>
  Claim C3, as the code has it. Whatever the four reads return, \<open>get_all_status\<close> returns
  an aggregate, never \<open>None\<close>, with the timestamp, the connection flag as it was before
  the reads, and all four region sub-sections. The sub-section of a region holds one
  entry for each value that the region's read returned (the reads ask for 10 registers,
  10 Coils-A, 8 inputs and 8 Coils-B); it is an empty dictionary when the read failed.
\<close>

theorem get_all_status_sections:
  assumes "read_d_registers T 0 10 p = (dv, p1)" and "read_m_coils T 0 10 p1 = (mv, p2)"
    and "read_x_inputs T 0 8 p2 = (xv, p3)" and "read_y_outputs T 0 8 p3 = (yv, p4)"
  shows "get_all_status T now p =
     (Some [(''timestamp'', PStr now), (''connected'', PBool (connected p)),
            (''d_registers'', PDict (section_of ''D'' (map_option (map (\<lambda>w. PInt (uint w))) dv))),
            (''m_coils'', PDict (section_of ''M'' (map_option (map PBool) mv))),
            (''x_inputs'', PDict (section_of ''X'' (map_option (map PBool) xv))),
            (''y_outputs'', PDict (section_of ''Y'' (map_option (map PBool) yv)))], p4)
    \<and> length (section_of ''D'' (map_option (map (\<lambda>w. PInt (uint w))) dv)) =
        (case dv of None \<Rightarrow> 0 | Some vs \<Rightarrow> length vs)
    \<and> length (section_of ''M'' (map_option (map PBool) mv)) =
        (case mv of None \<Rightarrow> 0 | Some vs \<Rightarrow> length vs)
    \<and> length (section_of ''X'' (map_option (map PBool) xv)) =
        (case xv of None \<Rightarrow> 0 | Some vs \<Rightarrow> length vs)
    \<and> length (section_of ''Y'' (map_option (map PBool) yv)) =
        (case yv of None \<Rightarrow> 0 | Some vs \<Rightarrow> length vs)"
  using get_all_status_eq [OF assms, of now]
  by (simp add: section_of_length split: option.splits)

theorem get_all_status_sections_witness:
  "get_all_status (scripted True) ''2025-01-01T00:00:00''
     (station True [Registers [1, 2, 3, 4, 5, 6, 7, 8, 9, 10], ErrorResponse,
        Bits [True, False, False, False, False, False, False, True], Raised]) =
   (Some [(''timestamp'', PStr ''2025-01-01T00:00:00''), (''connected'', PBool True),
          (''d_registers'', PDict [(''D0'', PInt 1), (''D1'', PInt 2), (''D2'', PInt 3),
             (''D3'', PInt 4), (''D4'', PInt 5), (''D5'', PInt 6), (''D6'', PInt 7),
             (''D7'', PInt 8), (''D8'', PInt 9), (''D9'', PInt 10)]),
          (''m_coils'', PDict []),
          (''x_inputs'', PDict [(''X0'', PBool True), (''X1'', PBool False), (''X2'', PBool False),
             (''X3'', PBool False), (''X4'', PBool False), (''X5'', PBool False),
             (''X6'', PBool False), (''X7'', PBool True)]),
          (''y_outputs'', PDict [])],
    \<lparr>connected = True, slave_address = 1, line = [],
     trace = [Call (ReadHoldingRegisters 0x1000 10 1), Call (ReadCoils 0x0800 10 1),
              Call (ReadDiscreteInputs 0x0400 8 1), Call (ReadCoils 0x0500 8 1)]\<rparr>)"
proof -
  let ?regs = "[1, 2, 3, 4, 5, 6, 7, 8, 9, 10] :: register list"
  let ?bits = "[True, False, False, False, False, False, False, True]"
  let ?p1 = "\<lparr>connected = True, slave_address = 1,
     line = [ErrorResponse, Bits ?bits, Raised],
     trace = [Call (ReadHoldingRegisters 0x1000 10 1)]\<rparr>"
  let ?p2 = "\<lparr>connected = True, slave_address = 1, line = [Bits ?bits, Raised],
     trace = [Call (ReadHoldingRegisters 0x1000 10 1), Call (ReadCoils 0x0800 10 1)]\<rparr>"
  let ?p3 = "\<lparr>connected = True, slave_address = 1, line = [Raised],
     trace = [Call (ReadHoldingRegisters 0x1000 10 1), Call (ReadCoils 0x0800 10 1),
              Call (ReadDiscreteInputs 0x0400 8 1)]\<rparr>"
  let ?p4 = "\<lparr>connected = True, slave_address = 1, line = [] :: response list,
     trace = [Call (ReadHoldingRegisters 0x1000 10 1), Call (ReadCoils 0x0800 10 1),
              Call (ReadDiscreteInputs 0x0400 8 1), Call (ReadCoils 0x0500 8 1)]\<rparr>"
  have d: "read_d_registers (scripted True) 0 10
      (station True [Registers ?regs, ErrorResponse, Bits ?bits, Raised]) = (Some ?regs, ?p1)"
    by (simp add: read_d_registers_connected station_def scripted_transact D_OFFSET_def)
  have m: "read_m_coils (scripted True) 0 10 ?p1 = (None, ?p2)"
    by (simp add: read_m_coils_connected scripted_transact M_OFFSET_def)
  have x: "read_x_inputs (scripted True) 0 8 ?p2 = (Some ?bits, ?p3)"
    by (simp add: read_x_inputs_connected scripted_transact X_OFFSET_def slice_to_def)
  have y: "read_y_outputs (scripted True) 0 8 ?p3 = (None, ?p4)"
    by (simp add: read_y_outputs_connected scripted_transact Y_OFFSET_def)
  have k: "str_nat 0 = ''0''"
    "str_nat (Suc 0) = ''1''"
    "str_nat (Suc (Suc 0)) = ''2''"
    "str_nat (Suc (Suc (Suc 0))) = ''3''"
    "str_nat (Suc (Suc (Suc (Suc 0)))) = ''4''"
    "str_nat (Suc (Suc (Suc (Suc (Suc 0))))) = ''5''"
    "str_nat (Suc (Suc (Suc (Suc (Suc (Suc 0)))))) = ''6''"
    "str_nat (Suc (Suc (Suc (Suc (Suc (Suc (Suc 0))))))) = ''7''"
    "str_nat (Suc (Suc (Suc (Suc (Suc (Suc (Suc (Suc 0)))))))) = ''8''"
    "str_nat (Suc (Suc (Suc (Suc (Suc (Suc (Suc (Suc (Suc 0))))))))) = ''9''"
    by (simp_all add: str_nat.simps digit_char_def)
  from get_all_status_sections [OF d m x y, of "''2025-01-01T00:00:00''"]
  show ?thesis
    by (simp add: section_of_def station_sel k)
qed

section \<open>The status route\<close>

lemma put_coil_ok:
  assumes "map_of status ''m_coils'' = Some (PDict ms)" and "i < length m"
  shows "put_coil key m i status =
     Inr (setitem ''m_coils'' (PDict (setitem key (PBool (m ! i)) ms)) status)"
  using assms by (simp add: put_coil_def setitem2_def)

lemma merge_m100_103:
  assumes "map_of status ''m_coils'' = Some (PDict ms)"
  shows "and_then (put_coil ''M100'' [b0, b1, b2, b3] 0 status) (\<lambda>s1.
         and_then (put_coil ''M101'' [b0, b1, b2, b3] 1 s1) (\<lambda>s2.
         and_then (put_coil ''M102'' [b0, b1, b2, b3] 2 s2) (\<lambda>s3.
         put_coil ''M103'' [b0, b1, b2, b3] 3 s3))) =
     Inr (setitem ''m_coils'' (PDict (setitem ''M103'' (PBool b3) (setitem ''M102'' (PBool b2)
            (setitem ''M101'' (PBool b1) (setitem ''M100'' (PBool b0) ms))))) status)"
proof -
  let ?m = "[b0, b1, b2, b3]"
  let ?ms1 = "setitem ''M100'' (PBool b0) ms"
  let ?ms2 = "setitem ''M101'' (PBool b1) ?ms1"
  let ?ms3 = "setitem ''M102'' (PBool b2) ?ms2"
  let ?s1 = "setitem ''m_coils'' (PDict ?ms1) status"
  let ?s2 = "setitem ''m_coils'' (PDict ?ms2) status"
  let ?s3 = "setitem ''m_coils'' (PDict ?ms3) status"
  have 1: "put_coil ''M100'' ?m 0 status = Inr ?s1"
    using put_coil_ok [OF assms, of 0 ?m "''M100''"] by simp
  have m1: "map_of ?s1 ''m_coils'' = Some (PDict ?ms1)"
    by (simp add: map_of_setitem)
  have 2: "put_coil ''M101'' ?m 1 ?s1 = Inr ?s2"
    using put_coil_ok [OF m1, of 1 ?m "''M101''"] by (simp add: setitem_twice)
  have m2: "map_of ?s2 ''m_coils'' = Some (PDict ?ms2)"
    by (simp add: map_of_setitem)
  have 3: "put_coil ''M102'' ?m 2 ?s2 = Inr ?s3"
    using put_coil_ok [OF m2, of 2 ?m "''M102''"] by (simp add: setitem_twice)
  have m3: "map_of ?s3 ''m_coils'' = Some (PDict ?ms3)"
    by (simp add: map_of_setitem)
  have 4: "put_coil ''M103'' ?m 3 ?s3 =
      Inr (setitem ''m_coils'' (PDict (setitem ''M103'' (PBool b3) ?ms3)) status)"
    using put_coil_ok [OF m3, of 3 ?m "''M103''"] by (simp add: setitem_twice)
  show ?thesis
    by (simp only: and_then_def 1 2 3 4 sum.case)
qed

lemma get_all_status_shape:
  assumes "get_all_status T now p = (r, p')"
  shows "\<exists>status. r = Some status \<and> status \<noteq> []
     \<and> map_of status ''m_coils'' = Some (PDict (m_coils_of status))"
proof -
  obtain dv p1 where d: "read_d_registers T 0 10 p = (dv, p1)"
    by (cases "read_d_registers T 0 10 p")
  obtain mv p2 where m: "read_m_coils T 0 10 p1 = (mv, p2)"
    by (cases "read_m_coils T 0 10 p1")
  obtain xv p3 where x: "read_x_inputs T 0 8 p2 = (xv, p3)"
    by (cases "read_x_inputs T 0 8 p2")
  obtain yv p4 where y: "read_y_outputs T 0 8 p3 = (yv, p4)"
    by (cases "read_y_outputs T 0 8 p3")
  from get_all_status_eq [OF d m x y, of now] assms show ?thesis
    by (auto simp: m_coils_of_def)
qed

lemma get_status_state:
  "snd (get_status T now p) = snd (read_m_coils T 100 4 (snd (get_all_status T now p)))"
proof -
  obtain r p1 where g: "get_all_status T now p = (r, p1)"
    by (cases "get_all_status T now p")
  from get_all_status_shape [OF g] obtain kv kvs where r: "r = Some (kv # kvs)"
    by (auto simp: neq_Nil_conv)
  show ?thesis
    by (simp add: get_status_def g r split: prod.splits option.splits list.splits sum.splits)
qed

lemma example_snapshot:
  "get_all_status (scripted True) now
     (station True [Raised, ErrorResponse, Raised, Raised,
        Bits [True, False, True, False, False, False, False, False]]) =
   (Some [(''timestamp'', PStr now), (''connected'', PBool True),
          (''d_registers'', PDict []), (''m_coils'', PDict []),
          (''x_inputs'', PDict []), (''y_outputs'', PDict [])],
    \<lparr>connected = True, slave_address = 1,
     line = [Bits [True, False, True, False, False, False, False, False]],
     trace = [Call (ReadHoldingRegisters 0x1000 10 1), Call (ReadCoils 0x0800 10 1),
              Call (ReadDiscreteInputs 0x0400 8 1), Call (ReadCoils 0x0500 8 1)]\<rparr>)"
proof -
  let ?b = "Bits [True, False, True, False, False, False, False, False]"
  let ?p1 = "\<lparr>connected = True, slave_address = 1, line = [ErrorResponse, Raised, Raised, ?b],
     trace = [Call (ReadHoldingRegisters 0x1000 10 1)]\<rparr>"
  let ?p2 = "\<lparr>connected = True, slave_address = 1, line = [Raised, Raised, ?b],
     trace = [Call (ReadHoldingRegisters 0x1000 10 1), Call (ReadCoils 0x0800 10 1)]\<rparr>"
  let ?p3 = "\<lparr>connected = True, slave_address = 1, line = [Raised, ?b],
     trace = [Call (ReadHoldingRegisters 0x1000 10 1), Call (ReadCoils 0x0800 10 1),
              Call (ReadDiscreteInputs 0x0400 8 1)]\<rparr>"
  let ?p4 = "\<lparr>connected = True, slave_address = 1, line = [?b],
     trace = [Call (ReadHoldingRegisters 0x1000 10 1), Call (ReadCoils 0x0800 10 1),
              Call (ReadDiscreteInputs 0x0400 8 1), Call (ReadCoils 0x0500 8 1)]\<rparr>"
  have d: "read_d_registers (scripted True) 0 10
      (station True [Raised, ErrorResponse, Raised, Raised, ?b]) = (None, ?p1)"
    by (simp add: read_d_registers_connected station_def scripted_transact D_OFFSET_def)
  have m: "read_m_coils (scripted True) 0 10 ?p1 = (None, ?p2)"
    by (simp add: read_m_coils_connected scripted_transact M_OFFSET_def)
  have x: "read_x_inputs (scripted True) 0 8 ?p2 = (None, ?p3)"
    by (simp add: read_x_inputs_connected scripted_transact X_OFFSET_def)
  have y: "read_y_outputs (scripted True) 0 8 ?p3 = (None, ?p4)"
    by (simp add: read_y_outputs_connected scripted_transact Y_OFFSET_def)
  show ?thesis
    by (simp add: get_all_status_eq [OF d m x y] section_of_def station_sel)
qed

lemma example_block_read:
  "read_m_coils (scripted True) 100 4
     \<lparr>connected = True, slave_address = 1,
      line = [Bits [True, False, True, False, False, False, False, False]],
      trace = [Call (ReadHoldingRegisters 0x1000 10 1), Call (ReadCoils 0x0800 10 1),
               Call (ReadDiscreteInputs 0x0400 8 1), Call (ReadCoils 0x0500 8 1)]\<rparr> =
   (Some [True, False, True, False],
    \<lparr>connected = True, slave_address = 1, line = [],
     trace = [Call (ReadHoldingRegisters 0x1000 10 1), Call (ReadCoils 0x0800 10 1),
              Call (ReadDiscreteInputs 0x0400 8 1), Call (ReadCoils 0x0500 8 1),
              Call (ReadCoils (0x0800 + 100) 4 1)]\<rparr>)"
  by (simp add: read_m_coils_connected scripted_transact M_OFFSET_def slice_to_def)

text \<open>
  A run of \<^verbatim>\<open>GET /api/status\<close>: after the four prefix reads, the fifth transaction reads
  four coils at \<open>0x0800 + 100\<close>, in the Coils-A region. No transaction goes to offset 100
  of Coils-B.
\<close>

theorem get_status_block_region_counterexample:
  "trace (snd (get_status (scripted True) ''2025-01-01T00:00:00''
      (station True [Raised, ErrorResponse, Raised, Raised,
         Bits [True, False, True, False, False, False, False, False]]))) =
     [Call (ReadHoldingRegisters 0x1000 10 1), Call (ReadCoils 0x0800 10 1),
      Call (ReadDiscreteInputs 0x0400 8 1), Call (ReadCoils 0x0500 8 1),
      Call (ReadCoils (0x0800 + 100) 4 1)]
   \<and> Call (ReadCoils (Y_OFFSET + 100) 4 1) \<notin> set (trace (snd (get_status (scripted True)
      ''2025-01-01T00:00:00''
      (station True [Raised, ErrorResponse, Raised, Raised,
         Bits [True, False, True, False, False, False, False, False]]))))"
  by (simp add: get_status_state example_snapshot example_block_read Y_OFFSET_def)

text \<open>
  Claim C2, as the code has it. After the snapshot, \<open>get_status\<close> reads the four coils at
  the offsets 100 to 103 of the Coils-A region. When the read returns the four bits, they
  are stored under \<open>M100\<close> to \<open>M103\<close> in the \<open>m_coils\<close> sub-section of the snapshot,
  which is served with 200; when the read fails, the snapshot is served as it is.
\<close>

theorem get_status_merges_m100_103:
  assumes "get_all_status T now p = (Some status, p1)" and "read_m_coils T 100 4 p1 = (mv, p2)"
  shows "(mv = Some [b0, b1, b2, b3] \<longrightarrow>
            get_status T now p =
              ((Doc (setitem ''m_coils''
                  (PDict (setitem ''M103'' (PBool b3) (setitem ''M102'' (PBool b2)
                    (setitem ''M101'' (PBool b1) (setitem ''M100'' (PBool b0)
                      (m_coils_of status))))))
                  status), 200), p2))
     \<and> (mv = None \<or> mv = Some [] \<longrightarrow> get_status T now p = ((Doc status, 200), p2))
     \<and> set (addresses_used p1 p2) \<subseteq> {M_OFFSET + 100}"
proof -
  from get_all_status_shape [OF assms(1)]
  have ne: "status \<noteq> []" and mo: "map_of status ''m_coils'' = Some (PDict (m_coils_of status))"
    by simp_all
  from ne obtain kv kvs where st: "status = kv # kvs"
    by (cases status) auto
  have a: "get_status T now p =
     ((Doc (setitem ''m_coils''
                  (PDict (setitem ''M103'' (PBool b3) (setitem ''M102'' (PBool b2)
                    (setitem ''M101'' (PBool b1) (setitem ''M100'' (PBool b0)
                      (m_coils_of status))))))
                  status), 200), p2)" if "mv = Some [b0, b1, b2, b3]"
    using assms that merge_m100_103 [OF mo, of b0 b1 b2 b3]
    unfolding st by (simp add: get_status_def)
  have b: "get_status T now p = ((Doc status, 200), p2)" if "mv = None \<or> mv = Some []"
    using assms that unfolding st by (auto simp: get_status_def)
  have c: "set (addresses_used p1 p2) \<subseteq> {M_OFFSET + 100}"
    using step_events_addresses [OF read_m_coils_events, of p1 T 100 4] assms(2) by simp
  from a b c show ?thesis by blast
qed

theorem get_status_merges_m100_103_witness:
  "get_status (scripted True) ''2025-01-01T00:00:00''
      (station True [Raised, ErrorResponse, Raised, Raised,
         Bits [True, False, True, False, False, False, False, False]]) =
   ((Doc [(''timestamp'', PStr ''2025-01-01T00:00:00''), (''connected'', PBool True),
          (''d_registers'', PDict []),
          (''m_coils'', PDict [(''M100'', PBool True), (''M101'', PBool False),
             (''M102'', PBool True), (''M103'', PBool False)]),
          (''x_inputs'', PDict []), (''y_outputs'', PDict [])], 200),
    \<lparr>connected = True, slave_address = 1, line = [],
     trace = [Call (ReadHoldingRegisters 0x1000 10 1), Call (ReadCoils 0x0800 10 1),
              Call (ReadDiscreteInputs 0x0400 8 1), Call (ReadCoils 0x0500 8 1),
              Call (ReadCoils (0x0800 + 100) 4 1)]\<rparr>)"
  using get_status_merges_m100_103 [OF example_snapshot example_block_read,
      where ?b0.0 = True and ?b1.0 = False and ?b2.0 = True and ?b3.0 = False,
      THEN conjunct1]
  by (simp add: m_coils_of_def)

end
